theory Spec2Isabelle
  imports Main "HOL-Library.Word" "HOL-Library.Signed_Division"
begin

unbundle bit_operations_syntax

section \<open>Machine integers and memory\<close>

text \<open>
  The C types of the emulator core: \<open>uint8_t\<close>, \<open>uint16_t\<close>, \<open>unsigned int\<close> and
  \<open>int\<close> (32 bits, two's complement, so both are \<open>32 word\<close> and the signed reading is
  \<open>sint\<close>), \<open>uint64_t\<close>. A byte buffer reached through a base pointer (RAM, ROM) is a
  function from the byte offset to the byte stored there.
\<close>

type_synonym u8 = "8 word"
type_synonym u16 = "16 word"
type_synonym u32 = "32 word"
type_synonym u64 = "64 word"
type_synonym mem = "nat \<Rightarrow> u8"

section \<open>The globals of main.c\<close>

text \<open>
  Calls that main.c makes into code that is not part of the sources (the 68000
  interpreter, the VIA and SCC models, the disc service, the host's audio hooks) are
  recorded, in order and with their arguments, in a log. Diagnostics (\<open>MDBG\<close>,
  \<open>MERR\<close>, \<open>printf\<close>) are not part of the state.
\<close>

datatype ext_call =
    M68k_set_irq u32
  | M68k_set_virq u32 u32
  | M68k_pulse_reset
  | M68k_execute u32
  | Via_sr_rx u8
  | Via_write u32 u32
  | Via_read u32
  | Via_tick u32
  | Via_limit_cycles u32
  | Scc_write u32 u32
  | Scc_read u32
  | Disc_pv_hook u32
  | Umac_audio_cfg u32 u32
  | Umac_audio_trap

text \<open>The two instruction-fetch accessors the function pointer \<open>cpu_read_instr\<close> can hold.\<close>

datatype fetch = Cpu_read_instr_overlay | Cpu_read_instr_normal

record umac =
  g_int_controller_pending :: u32
  g_int_controller_highest_int :: u32
  ram :: mem
  umac_volume :: u32
  umac_sndres :: u32
  overlay :: u32
  global_time_us :: u64
  global_cycles :: u64
  sim_done :: u32
  guard_val :: u32
  oldval :: u8
  via_quadbits :: u8
  via_mouse_pressed :: u8
  kbd_last_cmd :: u32
  kbd_last_cmd_time :: u64
  kbd_pending_evt :: u32
  scc_irq_state :: u32
  iwm_regs :: mem
  cpu_read_instr :: fetch
  ext_calls :: "ext_call list"

text \<open>
  The state the static initialisers of main.c give, over the RAM buffer the host hands to
  \<open>umac_init\<close>: \<open>overlay = 1\<close>, \<open>oldval = 0x10\<close> (the static of \<open>via_ra_changed\<close>),
  \<open>guard_val = 0\<close> (the static of \<open>exit_error\<close>), \<open>kbd_pending_evt = -1\<close>,
  \<open>cpu_read_instr = cpu_read_instr_overlay\<close>, everything else zero.
\<close>

definition umac_initial :: "mem \<Rightarrow> umac" where
  "umac_initial ram_base =
     \<lparr> g_int_controller_pending = 0,
       g_int_controller_highest_int = 0,
       ram = ram_base,
       umac_volume = 0,
       umac_sndres = 0,
       overlay = 1,
       global_time_us = 0,
       global_cycles = 0,
       sim_done = 0,
       guard_val = 0,
       oldval = 0x10,
       via_quadbits = 0,
       via_mouse_pressed = 0,
       kbd_last_cmd = 0,
       kbd_last_cmd_time = 0,
       kbd_pending_evt = - 1,
       scc_irq_state = 0,
       iwm_regs = (\<lambda>_. 0),
       cpu_read_instr = Cpu_read_instr_overlay,
       ext_calls = [] \<rparr>"

definition log_call :: "ext_call \<Rightarrow> umac \<Rightarrow> umac" where
  "log_call c s = s\<lparr>ext_calls := ext_calls s @ [c]\<rparr>"


section \<open>RAM and ROM accessors\<close>

text \<open>
  Modelled from the spec: the accessor macros \<open>RAM_RD8\<close>, \<open>RAM_RD16\<close>, \<open>RAM_RD32\<close>,
  \<open>RAM_WR8\<close>, \<open>RAM_WR16\<close>, \<open>RAM_WR32\<close> and \<open>ROM_RD8\<close>, \<open>ROM_RD16\<close>, \<open>ROM_RD32\<close> belong
  to machw.h, which is not part of the sources. The spec has word and long accesses
  big-endian and unaligned over the byte buffer; the macros take the offset into the
  buffer.
\<close>

definition rd8 :: "mem \<Rightarrow> nat \<Rightarrow> u8" where
  "rd8 m a = m a"

definition rd16 :: "mem \<Rightarrow> nat \<Rightarrow> u16" where
  "rd16 m a = push_bit 8 (ucast (m a)) OR ucast (m (a + 1))"

definition rd32 :: "mem \<Rightarrow> nat \<Rightarrow> u32" where
  "rd32 m a = push_bit 24 (ucast (m a)) OR push_bit 16 (ucast (m (a + 1))) OR
              push_bit 8 (ucast (m (a + 2))) OR ucast (m (a + 3))"

definition wr8 :: "nat \<Rightarrow> u8 \<Rightarrow> mem \<Rightarrow> mem" where
  "wr8 a v m = m(a := v)"

definition wr16 :: "nat \<Rightarrow> u16 \<Rightarrow> mem \<Rightarrow> mem" where
  "wr16 a v m = m(a := ucast (drop_bit 8 v), a + 1 := ucast v)"

definition wr32 :: "nat \<Rightarrow> u32 \<Rightarrow> mem \<Rightarrow> mem" where
  "wr32 a v m = m(a := ucast (drop_bit 24 v), a + 1 := ucast (drop_bit 16 v),
                  a + 2 := ucast (drop_bit 8 v), a + 3 := ucast v)"

definition RAM_RD8 :: "nat \<Rightarrow> umac \<Rightarrow> u8" where
  "RAM_RD8 a s = rd8 (ram s) a"

definition RAM_RD16 :: "nat \<Rightarrow> umac \<Rightarrow> u16" where
  "RAM_RD16 a s = rd16 (ram s) a"

definition RAM_RD32 :: "nat \<Rightarrow> umac \<Rightarrow> u32" where
  "RAM_RD32 a s = rd32 (ram s) a"

definition RAM_WR8 :: "nat \<Rightarrow> u8 \<Rightarrow> umac \<Rightarrow> umac" where
  "RAM_WR8 a v s = s\<lparr>ram := wr8 a v (ram s)\<rparr>"

definition RAM_WR16 :: "nat \<Rightarrow> u16 \<Rightarrow> umac \<Rightarrow> umac" where
  "RAM_WR16 a v s = s\<lparr>ram := wr16 a v (ram s)\<rparr>"

definition RAM_WR32 :: "nat \<Rightarrow> u32 \<Rightarrow> umac \<Rightarrow> umac" where
  "RAM_WR32 a v s = s\<lparr>ram := wr32 a v (ram s)\<rparr>"

section \<open>VIA port callbacks, overlay and reset\<close>

text \<open>
  \<open>update_overlay_layout\<close> points \<open>cpu_read_instr\<close> at the accessor for the current
  \<open>overlay\<close> flag.
\<close>

definition update_overlay_layout :: "umac \<Rightarrow> umac" where
  "update_overlay_layout s =
     (if overlay s \<noteq> 0 then s\<lparr>cpu_read_instr := Cpu_read_instr_overlay\<rparr>
      else s\<lparr>cpu_read_instr := Cpu_read_instr_normal\<rparr>)"

text \<open>
  \<open>via_ra_changed(val)\<close>. \<open>ENABLE_AUDIO\<close> is a build flag whose setting is not in the
  sources, so it is a parameter. As in the source, the volume code and the assignment
  \<open>oldval = val\<close> both stand inside \<open>#if ENABLE_AUDIO\<close>.
\<close>

definition via_ra_changed :: "bool \<Rightarrow> u8 \<Rightarrow> umac \<Rightarrow> umac" where
  "via_ra_changed enable_audio val s =
     (let s1 = s\<lparr>overlay := (if val AND 0x10 \<noteq> 0 then 1 else 0)\<rparr>;
          s2 = (if (oldval s1 XOR val) AND 0x10 \<noteq> 0 then update_overlay_layout s1 else s1)
      in if enable_audio
         then (let vol = val AND 7;
                   s3 = (if ucast vol \<noteq> umac_volume s2
                         then (let s' = s2\<lparr>umac_volume := ucast (val AND 7)\<rparr>
                               in log_call (Umac_audio_cfg (umac_volume s') (umac_sndres s')) s')
                         else s2)
               in s3\<lparr>oldval := val\<rparr>)
         else s2)"

definition via_rb_changed :: "bool \<Rightarrow> u8 \<Rightarrow> umac \<Rightarrow> umac" where
  "via_rb_changed enable_audio val s =
     (if enable_audio
      then (let sndres = drop_bit 7 val
            in if ucast sndres \<noteq> umac_sndres s
               then (let s' = s\<lparr>umac_sndres := ucast sndres\<rparr>
                     in log_call (Umac_audio_cfg (umac_volume s') (umac_sndres s')) s')
               else s)
      else s)"

definition via_ra_in :: "umac \<Rightarrow> u8" where
  "via_ra_in s = 0"

text \<open>\<open>via_rb_in\<close>: the quadrature bits, with bit 3 set when the button is not pressed.\<close>

definition via_rb_in :: "umac \<Rightarrow> u8" where
  "via_rb_in s =
     (let v = via_quadbits s
      in if via_mouse_pressed s = 0 then v OR push_bit 3 1 else v)"

definition via_irq_set :: "u32 \<Rightarrow> umac \<Rightarrow> umac" where
  "via_irq_set status s =
     (if status \<noteq> 0 then log_call (M68k_set_virq 1 1) s else log_call (M68k_set_virq 1 0) s)"

definition scc_irq_set :: "u32 \<Rightarrow> umac \<Rightarrow> umac" where
  "scc_irq_set status s =
     (let s1 = (if status \<noteq> 0 then log_call (M68k_set_virq 2 1) s
                else log_call (M68k_set_virq 2 0) s)
      in s1\<lparr>scc_irq_state := status\<rparr>)"

text \<open>
  \<open>umac_reset\<close>: \<open>overlay = 1; m68k_pulse_reset();\<close>. The interpreter's reset is a
  logged call; what it reads while resetting is not part of the state.
\<close>

definition umac_reset :: "umac \<Rightarrow> umac" where
  "umac_reset s = log_call M68k_pulse_reset (s\<lparr>overlay := 1\<rparr>)"

text \<open>
  \<open>umac_disc_ejected\<close> as built without \<open>SIM\<close> (with \<open>SIM\<close> it is \<open>exit(1)\<close>, which ends
  the process).
\<close>

definition umac_disc_ejected :: "umac \<Rightarrow> umac" where
  "umac_disc_ejected s = umac_reset s"

section \<open>Mouse\<close>

definition MTemp_h :: nat where "MTemp_h = 0x82a"
definition MTemp_v :: nat where "MTemp_v = 0x828"
definition CrsrNew :: nat where "CrsrNew = 0x8ce"
definition CrsrCouple :: nat where "CrsrCouple = 0x8cf"

text \<open>
  \<open>umac_mouse(deltax, deltay, button)\<close>. The \<open>int16_t\<close> temporaries keep the low 16 bits
  of the \<open>int\<close> sum; \<open>via_mouse_pressed\<close> is a \<open>uint8_t\<close>, so it keeps the low 8 bits of
  \<open>button\<close>. The condition \<open>deltax || deltay\<close> is written as the negation of both being 0.
\<close>

definition umac_mouse :: "u32 \<Rightarrow> u32 \<Rightarrow> u32 \<Rightarrow> umac \<Rightarrow> umac" where
  "umac_mouse deltax deltay button s =
     (let s1 = (if deltax \<noteq> 0
                then (let temp_h = (ucast (ucast (RAM_RD16 MTemp_h s) + deltax) :: u16)
                      in RAM_WR16 MTemp_h temp_h s)
                else s);
          s2 = (if deltay \<noteq> 0
                then (let temp_v = (ucast (ucast (RAM_RD16 MTemp_v s1) - deltay) :: u16)
                      in RAM_WR16 MTemp_v temp_v s1)
                else s1);
          s3 = (if \<not> (deltax = 0 \<and> deltay = 0)
                then RAM_WR8 CrsrNew (RAM_RD8 CrsrCouple s2) s2
                else s2)
      in s3\<lparr>via_mouse_pressed := ucast button\<rparr>)"

section \<open>Keyboard\<close>

definition KBD_CMD_GET_MODEL :: u8 where "KBD_CMD_GET_MODEL = 0x16"
definition KBD_CMD_INQUIRY :: u8 where "KBD_CMD_INQUIRY = 0x10"
definition KBD_MODEL :: u32 where "KBD_MODEL = 5"
definition KBD_RSP_NULL :: u32 where "KBD_RSP_NULL = 0x7b"
definition UMAC_EXECLOOP_QUANTUM :: u32 where "UMAC_EXECLOOP_QUANTUM = 5000"

text \<open>
  Modelled from the spec: \<open>via_sr_rx(byte)\<close> belongs to via.c, which is missing; the
  spec has it queue the byte for the shift register's receive path. The call is logged
  with the byte it is given (the \<open>int\<close> argument converted to \<open>uint8_t\<close>).
\<close>

definition via_sr_rx :: "u32 \<Rightarrow> umac \<Rightarrow> umac" where
  "via_sr_rx val s = log_call (Via_sr_rx (ucast val)) s"

definition via_sr_tx :: "u8 \<Rightarrow> umac \<Rightarrow> umac" where
  "via_sr_tx data s = s\<lparr>kbd_last_cmd := ucast data, kbd_last_cmd_time := global_time_us s\<rparr>"

definition kbd_rx :: "u8 \<Rightarrow> umac \<Rightarrow> umac" where
  "kbd_rx data s =
     (if data = KBD_CMD_GET_MODEL then via_sr_rx (0x01 OR push_bit 1 KBD_MODEL) s
      else if data = KBD_CMD_INQUIRY
      then (if kbd_pending_evt s = - 1 then via_sr_rx KBD_RSP_NULL s
            else (via_sr_rx (kbd_pending_evt s) s)\<lparr>kbd_pending_evt := - 1\<rparr>)
      else s)"

definition kbd_check_work :: "umac \<Rightarrow> umac" where
  "kbd_check_work s =
     (if kbd_last_cmd s \<noteq> 0 \<and>
         global_time_us s - kbd_last_cmd_time s > ucast UMAC_EXECLOOP_QUANTUM
      then (kbd_rx (ucast (kbd_last_cmd s)) s)\<lparr>kbd_last_cmd := 0\<rparr>
      else s)"

definition umac_kbd_event :: "u8 \<Rightarrow> u32 \<Rightarrow> umac \<Rightarrow> umac" where
  "umac_kbd_event scancode down s =
     s\<lparr>kbd_pending_evt := ucast scancode OR (if down \<noteq> 0 then 0 else 0x80)\<rparr>"

section \<open>Interrupt controller\<close>

text \<open>
  \<open>int_controller_set\<close>: \<open>pending |= (1 << value)\<close>; if that changed the mask and
  \<open>value\<close> is above the recorded highest level, record it and pass it to the CPU.
\<close>

definition int_controller_set :: "u32 \<Rightarrow> umac \<Rightarrow> umac" where
  "int_controller_set val s =
     (let old_pending = g_int_controller_pending s;
          s1 = s\<lparr>g_int_controller_pending := old_pending OR push_bit (unat val) 1\<rparr>
      in if old_pending \<noteq> g_int_controller_pending s1 \<and> val > g_int_controller_highest_int s1
         then log_call (M68k_set_irq val) (s1\<lparr>g_int_controller_highest_int := val\<rparr>)
         else s1)"

text \<open>
  The loop of \<open>int_controller_clear\<close>,
  \<open>for (highest = 7; highest > 0; highest--) if (pending & (1 << highest)) break;\<close>
  from the current value \<open>h\<close> of the loop variable.
\<close>

function int_scan :: "u32 \<Rightarrow> u32 \<Rightarrow> u32" where
  "int_scan pending h =
     (if h > 0
      then (if pending AND push_bit (unat h) 1 \<noteq> 0 then h else int_scan pending (h - 1))
      else h)"
  by pat_completeness auto
termination
  by (relation "measure (\<lambda>(p, h). unat h)") (auto simp: unat_minus_one word_gt_0 unat_gt_0)

declare int_scan.simps [simp del]

definition int_controller_clear :: "u32 \<Rightarrow> umac \<Rightarrow> umac" where
  "int_controller_clear val s =
     (let s1 = s\<lparr>g_int_controller_pending :=
                   g_int_controller_pending s AND NOT (push_bit (unat val) 1)\<rparr>;
          s2 = s1\<lparr>g_int_controller_highest_int := int_scan (g_int_controller_pending s1) 7\<rparr>
      in log_call (M68k_set_irq (g_int_controller_highest_int s2)) s2)"

text \<open>A call of the interrupt controller's interface, and a sequence of such calls.\<close>

datatype int_call = Int_set u32 | Int_clear u32

fun int_level :: "int_call \<Rightarrow> u32" where
  "int_level (Int_set v) = v"
| "int_level (Int_clear v) = v"

fun int_apply :: "int_call \<Rightarrow> umac \<Rightarrow> umac" where
  "int_apply (Int_set v) s = int_controller_set v s"
| "int_apply (Int_clear v) s = int_controller_clear v s"

definition int_run :: "int_call list \<Rightarrow> umac \<Rightarrow> umac" where
  "int_run cs s = fold int_apply cs s"

text \<open>
  The maximum bit index set in a pending mask, 0 for the empty mask; and the level the
  CPU's IRQ input holds: the argument of the latest \<open>m68k_set_irq\<close>, 0 before any.
\<close>

definition max_pending_bit :: "u32 \<Rightarrow> nat" where
  "max_pending_bit p = fold max (filter (bit p) [0..<32]) 0"

definition cpu_irq_level :: "ext_call list \<Rightarrow> u32" where
  "cpu_irq_level cs = fold (\<lambda>c l. case c of M68k_set_irq v \<Rightarrow> v | _ \<Rightarrow> l) cs 0"


section \<open>Code that is not part of the sources\<close>

text \<open>
  The callbacks the VIA, the SCC and the disc service make into main.c (the \<open>via_cb\<close>
  and \<open>scc_cb\<close> tables of \<open>umac_init\<close>, and \<open>umac_disc_ejected\<close>). \<open>ra_in\<close> and \<open>rb_in\<close>
  only read.
\<close>

datatype callback =
    Cb_ra_change u8
  | Cb_rb_change u8
  | Cb_sr_tx u8
  | Cb_via_irq_set u32
  | Cb_scc_irq_set u32
  | Cb_disc_ejected

text \<open>
  The accesses the 68000 interpreter makes through the accessors of main.c.
\<close>

datatype bus_op =
    Read_byte u32
  | Read_word u32
  | Read_long u32
  | Read_word_dasm u32
  | Read_long_dasm u32
  | Write_byte u32 u32
  | Write_word u32 u32
  | Write_long u32 u32

text \<open>
  What main.c uses and the sources do not hold, as parameters: the build flag
  \<open>ENABLE_AUDIO\<close>; the address-decode macros and constants of machw.h (\<open>IS_RAM\<close> and
  \<open>IS_ROM\<close> are given the \<open>overlay\<close> flag); the ROM image behind \<open>_rom_base\<close>; and the
  functions of via.c, scc.c, disc.c and of the 68000 interpreter. Such a function is
  given by what main.c can see of it: its return value, the callbacks it makes, for
  the disc service the RAM it leaves, and for \<open>m68k_execute\<close> the bus accesses it makes
  and the cycles it reports. Each may depend on the whole state, log of earlier calls
  included.
\<close>

record hw =
  ENABLE_AUDIO :: bool
  IS_RAM :: "u32 \<Rightarrow> u32 \<Rightarrow> bool"
  IS_ROM :: "u32 \<Rightarrow> u32 \<Rightarrow> bool"
  IS_VIA :: "u32 \<Rightarrow> bool"
  IS_IWM :: "u32 \<Rightarrow> bool"
  IS_SCC_RD :: "u32 \<Rightarrow> bool"
  IS_SCC_WR :: "u32 \<Rightarrow> bool"
  IS_DUMMY :: "u32 \<Rightarrow> bool"
  IS_TESTSW :: "u32 \<Rightarrow> bool"
  IS_RAM_AUDIO_TRAP :: "u32 \<Rightarrow> bool"
  CLAMP_RAM_ADDR :: "u32 \<Rightarrow> u32"
  ROM_SIZE :: u32
  PV_SONY_ADDR :: u32
  x_rom :: mem
  x_via_read :: "u32 \<Rightarrow> umac \<Rightarrow> u32 \<times> callback list"
  x_via_write :: "u32 \<Rightarrow> u32 \<Rightarrow> umac \<Rightarrow> callback list"
  x_via_tick :: "u32 \<Rightarrow> umac \<Rightarrow> callback list"
  x_via_limit_cycles :: "u32 \<Rightarrow> umac \<Rightarrow> u32"
  x_scc_read :: "u32 \<Rightarrow> umac \<Rightarrow> u32 \<times> callback list"
  x_scc_write :: "u32 \<Rightarrow> u32 \<Rightarrow> umac \<Rightarrow> callback list"
  x_disc_pv_hook :: "u32 \<Rightarrow> umac \<Rightarrow> u32 \<times> mem \<times> callback list"
  x_m68k_execute :: "u32 \<Rightarrow> umac \<Rightarrow> bus_op list \<times> u32"

definition ROM_RD8 :: "hw \<Rightarrow> nat \<Rightarrow> u8" where
  "ROM_RD8 hw a = rd8 (x_rom hw) a"

definition ROM_RD16 :: "hw \<Rightarrow> nat \<Rightarrow> u16" where
  "ROM_RD16 hw a = rd16 (x_rom hw) a"

definition ROM_RD32 :: "hw \<Rightarrow> nat \<Rightarrow> u32" where
  "ROM_RD32 hw a = rd32 (x_rom hw) a"

fun do_callback :: "hw \<Rightarrow> callback \<Rightarrow> umac \<Rightarrow> umac" where
  "do_callback hw (Cb_ra_change v) s = via_ra_changed (ENABLE_AUDIO hw) v s"
| "do_callback hw (Cb_rb_change v) s = via_rb_changed (ENABLE_AUDIO hw) v s"
| "do_callback hw (Cb_sr_tx v) s = via_sr_tx v s"
| "do_callback hw (Cb_via_irq_set v) s = via_irq_set v s"
| "do_callback hw (Cb_scc_irq_set v) s = scc_irq_set v s"
| "do_callback hw Cb_disc_ejected s = umac_disc_ejected s"

definition do_callbacks :: "hw \<Rightarrow> callback list \<Rightarrow> umac \<Rightarrow> umac" where
  "do_callbacks hw cbs s = fold (do_callback hw) cbs s"

text \<open>
  Modelled from the spec: \<open>via_read\<close>, \<open>via_write\<close>, \<open>via_tick\<close>, \<open>via_limit_cycles\<close>
  (via.c), \<open>scc_read\<close>, \<open>scc_write\<close> (scc.c), \<open>disc_pv_hook\<close> (disc.c) are missing. The
  spec gives the VIA its callback interface (\<open>ra_change\<close>, \<open>rb_change\<close>, \<open>ra_in\<close>,
  \<open>rb_in\<close>, \<open>sr_tx\<close>, \<open>irq_set\<close>), has the disc service copy to and from RAM and report
  ejection through \<open>umac_disc_ejected\<close>. Each call is logged, then the callbacks the
  parameter names are run.
\<close>

definition via_read :: "hw \<Rightarrow> u32 \<Rightarrow> umac \<Rightarrow> u32 \<times> umac" where
  "via_read hw address s =
     (let s0 = log_call (Via_read address) s
      in case x_via_read hw address s0 of (v, cbs) \<Rightarrow> (v, do_callbacks hw cbs s0))"

definition via_write :: "hw \<Rightarrow> u32 \<Rightarrow> u32 \<Rightarrow> umac \<Rightarrow> umac" where
  "via_write hw address val s =
     (let s0 = log_call (Via_write address val) s
      in do_callbacks hw (x_via_write hw address val s0) s0)"

definition via_tick :: "hw \<Rightarrow> u32 \<Rightarrow> umac \<Rightarrow> umac" where
  "via_tick hw cycles s =
     (let s0 = log_call (Via_tick cycles) s
      in do_callbacks hw (x_via_tick hw cycles s0) s0)"

definition via_limit_cycles :: "hw \<Rightarrow> u32 \<Rightarrow> umac \<Rightarrow> u32 \<times> umac" where
  "via_limit_cycles hw cycles s =
     (let s0 = log_call (Via_limit_cycles cycles) s
      in (x_via_limit_cycles hw cycles s0, s0))"

definition scc_read :: "hw \<Rightarrow> u32 \<Rightarrow> umac \<Rightarrow> u32 \<times> umac" where
  "scc_read hw address s =
     (let s0 = log_call (Scc_read address) s
      in case x_scc_read hw address s0 of (v, cbs) \<Rightarrow> (v, do_callbacks hw cbs s0))"

definition scc_write :: "hw \<Rightarrow> u32 \<Rightarrow> u32 \<Rightarrow> umac \<Rightarrow> umac" where
  "scc_write hw address val s =
     (let s0 = log_call (Scc_write address val) s
      in do_callbacks hw (x_scc_write hw address val s0) s0)"

definition disc_pv_hook :: "hw \<Rightarrow> u32 \<Rightarrow> umac \<Rightarrow> u32 \<times> umac" where
  "disc_pv_hook hw val s =
     (let s0 = log_call (Disc_pv_hook val) s
      in case x_disc_pv_hook hw val s0 of
           (r, ram', cbs) \<Rightarrow> (r, do_callbacks hw cbs (s0\<lparr>ram := ram'\<rparr>)))"

section \<open>Fatal errors and the memory accessors\<close>

text \<open>
  A call either returns, with a value and the state, or leaves through
  \<open>longjmp(main_loop_jb, 1)\<close> with the state at that point.
\<close>

datatype 'a outcome = Returns 'a umac | Longjmp umac

text \<open>
  \<open>exit_error\<close>: with the static \<open>guard_val\<close> already set it returns at once; else it
  sets the guard, prints the message, the disassembly and the registers, sets
  \<open>sim_done\<close> and jumps. (The disassembler reads through \<open>cpu_read_word_dasm\<close>, which may
  call \<open>exit_error\<close> again: that call finds the guard set and returns.)
\<close>

definition exit_error :: "umac \<Rightarrow> unit outcome" where
  "exit_error s =
     (if guard_val s \<noteq> 0 then Returns () s
      else Longjmp (s\<lparr>guard_val := 1, sim_done := 1\<rparr>))"

definition iwm_write :: "u32 \<Rightarrow> u8 \<Rightarrow> umac \<Rightarrow> umac" where
  "iwm_write address data s =
     (let r = drop_bit 9 address AND 0xf
      in s\<lparr>iwm_regs := (iwm_regs s)(unat r := data)\<rparr>)"

definition iwm_read :: "u32 \<Rightarrow> umac \<Rightarrow> u8" where
  "iwm_read address s =
     (let r = drop_bit 9 address AND 0xf;
          data = iwm_regs s (unat r)
      in if r = 8 then 0xff else if r = 14 then 0x1f else data)"

definition cpu_read_byte :: "hw \<Rightarrow> u32 \<Rightarrow> umac \<Rightarrow> u32 outcome" where
  "cpu_read_byte hw address s =
     (if IS_RAM hw (overlay s) address
      then Returns (ucast (RAM_RD8 (unat (CLAMP_RAM_ADDR hw address)) s)) s
      else if IS_ROM hw (overlay s) address
      then Returns (ucast (ROM_RD8 hw (unat (address AND (ROM_SIZE hw - 1))))) s
      else if IS_VIA hw address
      then (case via_read hw address s of (v, s1) \<Rightarrow> Returns v s1)
      else if IS_IWM hw address then Returns (ucast (iwm_read address s)) s
      else if IS_SCC_RD hw address
      then (case scc_read hw address s of (v, s1) \<Rightarrow> Returns v s1)
      else if IS_DUMMY hw address then Returns 0 s
      else Returns 0 s)"

definition cpu_read_word :: "hw \<Rightarrow> u32 \<Rightarrow> umac \<Rightarrow> u32 outcome" where
  "cpu_read_word hw address s =
     (if IS_RAM hw (overlay s) address
      then Returns (ucast (RAM_RD16 (unat (CLAMP_RAM_ADDR hw address)) s)) s
      else if IS_ROM hw (overlay s) address
      then Returns (ucast (ROM_RD16 hw (unat (address AND (ROM_SIZE hw - 1))))) s
      else if IS_TESTSW hw address then Returns 0 s
      else (case exit_error s of Returns _ s1 \<Rightarrow> Returns 0 s1 | Longjmp s1 \<Rightarrow> Longjmp s1))"

definition cpu_read_long :: "hw \<Rightarrow> u32 \<Rightarrow> umac \<Rightarrow> u32 outcome" where
  "cpu_read_long hw address s =
     (if IS_RAM hw (overlay s) address
      then Returns (RAM_RD32 (unat (CLAMP_RAM_ADDR hw address)) s) s
      else if IS_ROM hw (overlay s) address
      then Returns (ROM_RD32 hw (unat (address AND (ROM_SIZE hw - 1)))) s
      else if IS_TESTSW hw address then Returns 0 s
      else (case exit_error s of Returns _ s1 \<Rightarrow> Returns 0 s1 | Longjmp s1 \<Rightarrow> Longjmp s1))"

definition cpu_read_word_dasm :: "hw \<Rightarrow> u32 \<Rightarrow> umac \<Rightarrow> u32 outcome" where
  "cpu_read_word_dasm hw address s =
     (if IS_RAM hw (overlay s) address
      then Returns (ucast (RAM_RD16 (unat (CLAMP_RAM_ADDR hw address)) s)) s
      else if IS_ROM hw (overlay s) address
      then Returns (ucast (ROM_RD16 hw (unat (address AND (ROM_SIZE hw - 1))))) s
      else (case exit_error s of Returns _ s1 \<Rightarrow> Returns 0 s1 | Longjmp s1 \<Rightarrow> Longjmp s1))"

definition cpu_read_long_dasm :: "hw \<Rightarrow> u32 \<Rightarrow> umac \<Rightarrow> u32 outcome" where
  "cpu_read_long_dasm hw address s =
     (if IS_RAM hw (overlay s) address
      then Returns (RAM_RD32 (unat (CLAMP_RAM_ADDR hw address)) s) s
      else if IS_ROM hw (overlay s) address
      then Returns (ROM_RD32 hw (unat (address AND (ROM_SIZE hw - 1)))) s
      else (case exit_error s of Returns _ s1 \<Rightarrow> Returns 0 s1 | Longjmp s1 \<Rightarrow> Longjmp s1))"

text \<open>
  \<open>cpu_write_byte\<close>: RAM, then VIA, IWM, SCC, the dummy region, and only then the test
  for \<open>PV_SONY_ADDR\<close>, where a nonzero return of \<open>disc_pv_hook\<close> calls \<open>exit_error\<close>.
\<close>

definition cpu_write_byte :: "hw \<Rightarrow> u32 \<Rightarrow> u32 \<Rightarrow> umac \<Rightarrow> unit outcome" where
  "cpu_write_byte hw address val s =
     (if IS_RAM hw (overlay s) address
      then (let address = CLAMP_RAM_ADDR hw address;
                s1 = RAM_WR8 (unat address) (ucast val) s
            in Returns () (if ENABLE_AUDIO hw \<and> IS_RAM_AUDIO_TRAP hw address
                           then log_call Umac_audio_trap s1 else s1))
      else if IS_VIA hw address then Returns () (via_write hw address val s)
      else if IS_IWM hw address then Returns () (iwm_write address (ucast val) s)
      else if IS_SCC_WR hw address then Returns () (scc_write hw address val s)
      else if IS_DUMMY hw address then Returns () s
      else if address = PV_SONY_ADDR hw
      then (case disc_pv_hook hw val s of
              (r, s1) \<Rightarrow> if r \<noteq> 0 then exit_error s1 else Returns () s1)
      else Returns () s)"

definition cpu_write_word :: "hw \<Rightarrow> u32 \<Rightarrow> u32 \<Rightarrow> umac \<Rightarrow> unit outcome" where
  "cpu_write_word hw address val s =
     (if IS_RAM hw (overlay s) address
      then Returns () (RAM_WR16 (unat (CLAMP_RAM_ADDR hw address)) (ucast val) s)
      else Returns () s)"

definition cpu_write_long :: "hw \<Rightarrow> u32 \<Rightarrow> u32 \<Rightarrow> umac \<Rightarrow> unit outcome" where
  "cpu_write_long hw address val s =
     (if IS_RAM hw (overlay s) address
      then Returns () (RAM_WR32 (unat (CLAMP_RAM_ADDR hw address)) val s)
      else Returns () s)"

section \<open>The 68000 interpreter and the main loop\<close>

text \<open>
  Modelled from the spec: the 68000 interpreter is not part of the sources; the spec
  has it a third-party library with fetch, read and write callbacks and an
  execute-for-N-cycles entry point. One call of \<open>m68k_execute\<close> makes the bus accesses
  the parameter names, in order, through the accessors above, and returns the cycles
  used; a \<open>longjmp\<close> out of an accessor abandons the rest.
\<close>

definition drop_value :: "'a outcome \<Rightarrow> unit outcome" where
  "drop_value x = (case x of Returns _ s \<Rightarrow> Returns () s | Longjmp s \<Rightarrow> Longjmp s)"

fun bus_access :: "hw \<Rightarrow> bus_op \<Rightarrow> umac \<Rightarrow> unit outcome" where
  "bus_access hw (Read_byte a) s = drop_value (cpu_read_byte hw a s)"
| "bus_access hw (Read_word a) s = drop_value (cpu_read_word hw a s)"
| "bus_access hw (Read_long a) s = drop_value (cpu_read_long hw a s)"
| "bus_access hw (Read_word_dasm a) s = drop_value (cpu_read_word_dasm hw a s)"
| "bus_access hw (Read_long_dasm a) s = drop_value (cpu_read_long_dasm hw a s)"
| "bus_access hw (Write_byte a v) s = cpu_write_byte hw a v s"
| "bus_access hw (Write_word a v) s = cpu_write_word hw a v s"
| "bus_access hw (Write_long a v) s = cpu_write_long hw a v s"

fun m68k_bus :: "hw \<Rightarrow> bus_op list \<Rightarrow> umac \<Rightarrow> unit outcome" where
  "m68k_bus hw [] s = Returns () s"
| "m68k_bus hw (b # bs) s =
     (case bus_access hw b s of
        Returns _ s1 \<Rightarrow> m68k_bus hw bs s1
      | Longjmp s1 \<Rightarrow> Longjmp s1)"

definition m68k_execute :: "hw \<Rightarrow> u32 \<Rightarrow> umac \<Rightarrow> u32 outcome" where
  "m68k_execute hw cycles s =
     (let s0 = log_call (M68k_execute cycles) s
      in case x_m68k_execute hw cycles s0 of
           (ops, used_cycles) \<Rightarrow>
             (case m68k_bus hw ops s0 of
                Returns _ s1 \<Rightarrow> Returns used_cycles s1
              | Longjmp s1 \<Rightarrow> Longjmp s1))"

text \<open>
  The body of \<open>umac_loop\<close> after \<open>setjmp(main_loop_jb)\<close>. \<open>used_cycles\<close> is an \<open>int\<close>
  added to the \<open>uint64_t\<close> \<open>global_cycles\<close>, so it is sign-extended.
\<close>

definition umac_loop_body :: "hw \<Rightarrow> umac \<Rightarrow> u32 outcome" where
  "umac_loop_body hw s =
     (let cycles = UMAC_EXECLOOP_QUANTUM * 8
      in case via_limit_cycles hw cycles s of
           (cycles, s1) \<Rightarrow>
             (case m68k_execute hw cycles s1 of
                Longjmp s2 \<Rightarrow> Longjmp s2
              | Returns used_cycles s2 \<Rightarrow>
                  (let s3 = s2\<lparr>global_cycles := global_cycles s2 + scast used_cycles\<rparr>;
                       s4 = s3\<lparr>global_time_us := global_cycles s3 div 8\<rparr>;
                       s5 = via_tick hw used_cycles s4;
                       s6 = kbd_check_work s5
                   in Returns (sim_done s6) s6)))"

text \<open>
  \<open>umac_loop\<close>: \<open>longjmp(main_loop_jb, 1)\<close> comes back to the \<open>setjmp\<close> at its top, whose
  return value is not looked at, so the body runs again from the state at the jump.
  \<open>None\<close> is for a call that never returns.
\<close>

partial_function (option) umac_loop :: "hw \<Rightarrow> umac \<Rightarrow> (u32 \<times> umac) option" where
  "umac_loop hw s =
     (case umac_loop_body hw s of
        Longjmp s1 \<Rightarrow> umac_loop hw s1
      | Returns r s1 \<Rightarrow> Some (r, s1))"

text \<open>The entry points the host calls, and a run of such calls with what each \<open>umac_loop\<close> returned.\<close>

datatype api_call =
    Api_loop
  | Api_reset
  | Api_mouse u32 u32 u32
  | Api_kbd_event u8 u32

fun api_run :: "hw \<Rightarrow> api_call list \<Rightarrow> umac \<Rightarrow> (u32 list \<times> umac) option" where
  "api_run hw [] s = Some ([], s)"
| "api_run hw (Api_loop # cs) s =
     (case umac_loop hw s of
        None \<Rightarrow> None
      | Some (r, s1) \<Rightarrow>
          (case api_run hw cs s1 of None \<Rightarrow> None | Some (rs, s2) \<Rightarrow> Some (r # rs, s2)))"
| "api_run hw (Api_reset # cs) s = api_run hw cs (umac_reset s)"
| "api_run hw (Api_mouse dx dy b # cs) s = api_run hw cs (umac_mouse dx dy b s)"
| "api_run hw (Api_kbd_event sc down # cs) s = api_run hw cs (umac_kbd_event sc down s)"

text \<open>
  A concrete setting for evaluating the accessors: no address belongs to a region,
  \<open>PV_SONY_ADDR\<close> is \<open>0xc00069\<close>, the disc hook fails with 1 on every command, the VIA
  and SCC make no callbacks, and the CPU writes the byte 1 to \<open>PV_SONY_ADDR\<close> once per
  \<open>m68k_execute\<close>.
\<close>

definition example_hw :: hw where
  "example_hw =
     \<lparr> ENABLE_AUDIO = False,
       IS_RAM = (\<lambda>_ _. False), IS_ROM = (\<lambda>_ _. False), IS_VIA = (\<lambda>_. False),
       IS_IWM = (\<lambda>_. False), IS_SCC_RD = (\<lambda>_. False), IS_SCC_WR = (\<lambda>_. False),
       IS_DUMMY = (\<lambda>_. False), IS_TESTSW = (\<lambda>_. False), IS_RAM_AUDIO_TRAP = (\<lambda>_. False),
       CLAMP_RAM_ADDR = (\<lambda>a. a), ROM_SIZE = 0x20000, PV_SONY_ADDR = 0xc00069,
       x_rom = (\<lambda>_. 0),
       x_via_read = (\<lambda>_ _. (0, [])), x_via_write = (\<lambda>_ _ _. []), x_via_tick = (\<lambda>_ _. []),
       x_via_limit_cycles = (\<lambda>c _. c),
       x_scc_read = (\<lambda>_ _. (0, [])), x_scc_write = (\<lambda>_ _ _. []),
       x_disc_pv_hook = (\<lambda>_ s. (1, ram s, [])),
       x_m68k_execute = (\<lambda>c _. ([Write_byte 0xc00069 1], c)) \<rparr>"


text \<open>
  For the proofs about fatal errors: a step that leaves \<open>sim_done\<close> and the guard of
  \<open>exit_error\<close> as they were; and what every accessor does to them, returning (both
  kept) or jumping (the guard was clear, both are now 1).
\<close>

definition keeps_fault :: "umac \<Rightarrow> umac \<Rightarrow> bool" where
  "keeps_fault s s' = (sim_done s' = sim_done s \<and> guard_val s' = guard_val s)"

definition fault_step :: "umac \<Rightarrow> 'a outcome \<Rightarrow> bool" where
  "fault_step s out =
     (case out of
        Returns _ s' \<Rightarrow> keeps_fault s s'
      | Longjmp s' \<Rightarrow> guard_val s = 0 \<and> sim_done s' = 1 \<and> guard_val s' = 1)"

text \<open>
  The bytes handed to \<open>via_sr_rx\<close> so far, in order (the keyboard's responses); and the
  state an outcome carries.
\<close>

definition kbd_responses :: "umac \<Rightarrow> u8 list" where
  "kbd_responses s = concat (map (\<lambda>c. case c of Via_sr_rx b \<Rightarrow> [b] | _ \<Rightarrow> []) (ext_calls s))"

definition outcome_state :: "'a outcome \<Rightarrow> umac" where
  "outcome_state x = (case x of Returns _ s \<Rightarrow> s | Longjmp s \<Rightarrow> s)"

text \<open>
  The state \<open>exit_error\<close> leaves when the first write to \<open>PV_SONY_ADDR\<close> after the start
  fails: the hook call logged, the guard and \<open>sim_done\<close> set.
\<close>

definition zero_mem :: mem where
  "zero_mem = (\<lambda>_. 0)"

text \<open>
  A RAM image for evaluating \<open>umac_mouse\<close>: \<open>MTemp_h\<close> holds \<open>0xFFFE\<close>, \<open>CrsrCouple\<close>
  holds \<open>0xFF\<close>, every other byte is 0.
\<close>

definition example_ram :: mem where
  "example_ram = zero_mem(0x82a := 0xff, 0x82b := 0xfe, 0x8cf := 0xff)"

definition example_faulted :: umac where
  "example_faulted =
     (log_call (Disc_pv_hook 1) (umac_initial zero_mem))\<lparr>guard_val := 1, sim_done := 1\<rparr>"

section \<open>rom.c: the ROM patcher\<close>

definition ROM_PLUSv3_VERSION :: u32 where "ROM_PLUSv3_VERSION = 0x4d1f8172"
definition ROM_PLUSv3_SONYDRV :: nat where "ROM_PLUSv3_SONYDRV = 0x17d30"
definition M68K_INST_NOP :: u32 where "M68K_INST_NOP = 0x4e71"

text \<open>
  \<open>rom_get_version\<close>: on a little-endian host the byte swap of the 32-bit load at
  \<open>rom_base\<close>, which is the big-endian value of the first four bytes. (The other branch
  of the \<open>#if\<close> has an unbalanced parenthesis and does not compile.)
\<close>

definition rom_get_version :: "mem \<Rightarrow> u32" where
  "rom_get_version rom_base = rd32 rom_base 0"

text \<open>
  The macros \<open>ROM_WR32\<close>, \<open>ROM_WR16\<close>, \<open>ROM_WR8\<close> of rom.c store the bytes
  \<open>(data >> 24) & 0xff\<close>, ..., \<open>data & 0xff\<close> of an \<open>int\<close> or \<open>unsigned int\<close>; bits 8 to
  31 of \<open>data\<close> are the same under an arithmetic and a logical shift.
\<close>

definition ROM_WR32 :: "nat \<Rightarrow> u32 \<Rightarrow> mem \<Rightarrow> mem" where
  "ROM_WR32 offset data rom_base =
     rom_base(offset + 0 := ucast (drop_bit 24 data), offset + 1 := ucast (drop_bit 16 data),
              offset + 2 := ucast (drop_bit 8 data), offset + 3 := ucast data)"

definition ROM_WR16 :: "nat \<Rightarrow> u32 \<Rightarrow> mem \<Rightarrow> mem" where
  "ROM_WR16 offset data rom_base =
     rom_base(offset + 0 := ucast (drop_bit 8 data), offset + 1 := ucast data)"

definition ROM_WR8 :: "nat \<Rightarrow> u32 \<Rightarrow> mem \<Rightarrow> mem" where
  "ROM_WR8 offset data rom_base = rom_base(offset + 0 := ucast data)"

text \<open>\<open>memcpy(rom_base + offset, src, sizeof(src))\<close>, byte by byte.\<close>

fun memcpy :: "nat \<Rightarrow> u8 list \<Rightarrow> mem \<Rightarrow> mem" where
  "memcpy offset [] rom_base = rom_base"
| "memcpy offset (b # bs) rom_base = memcpy (offset + 1) bs (rom_base(offset := b))"

text \<open>C's division of \<open>int\<close>s, which truncates towards zero.\<close>

definition c_sdiv :: "u32 \<Rightarrow> u32 \<Rightarrow> u32" where
  "c_sdiv a b = word_of_int (sint a sdiv sint b)"

text \<open>The loop \<open>for (int i = 0x376; i < 0x37e; i += 2) ROM_WR16(i, M68K_INST_NOP);\<close>\<close>

function nop_loop :: "nat \<Rightarrow> mem \<Rightarrow> mem" where
  "nop_loop i rom_base =
     (if i < 0x37e then nop_loop (i + 2) (ROM_WR16 i M68K_INST_NOP rom_base) else rom_base)"
  by pat_completeness auto
termination
  by (relation "measure (\<lambda>(i, r). 0x37e - i)") auto

declare nop_loop.simps [simp del]

text \<open>The macro \<open>SBCOORD(x, y)\<close> of \<open>rom_patch_plusv3\<close>.\<close>

definition SBCOORD :: "u32 \<Rightarrow> u32 \<Rightarrow> u32 \<Rightarrow> u32 \<Rightarrow> u32" where
  "SBCOORD screen_base disp_width x y =
     screen_base + c_sdiv disp_width 8 * y + c_sdiv x 8"

text \<open>
  \<open>rom_patch_plusv3\<close>. The table \<open>sony_driver\<close> (sonydrv.h) and the constant
  \<open>PV_SONY_ADDR\<close> (machw.h) are not part of the sources and are parameters. The result
  is the return value and the ROM buffer; the two \<open>return -1\<close> inside the block for
  wide displays are the \<open>Inl\<close> branches, with the buffer as it is at that point.
\<close>

definition rom_patch_plusv3 ::
  "u8 list \<Rightarrow> u32 \<Rightarrow> mem \<Rightarrow> u32 \<Rightarrow> u32 \<Rightarrow> u32 \<Rightarrow> u32 \<times> mem" where
  "rom_patch_plusv3 sony_driver pv_sony_addr rom_base disp_width disp_height ram_size =
     (let rom = ROM_WR16 0xd92 0xb381 rom_base;
          rom = memcpy ROM_PLUSv3_SONYDRV sony_driver rom;
          rom = ROM_WR32 (ROM_PLUSv3_SONYDRV + length sony_driver - 4) pv_sony_addr rom;
          rom = (if 128 * 1024 <s ram_size \<and> ram_size <s 512 * 1024
                 then (let rom = nop_loop 0x376 rom;
                           rom = ROM_WR16 0x376 0x2a7c rom;
                           rom = ROM_WR16 0x378 (signed_drop_bit 16 ram_size) rom;
                           rom = ROM_WR16 0x37a (ram_size AND 0xffff) rom;
                           rom = ROM_WR16 0x132 0x6000 rom
                       in ROM_WR32 0x292 (ram_size - 768) rom)
                 else rom)
      in if disp_width \<noteq> 512 \<or> disp_height \<noteq> 342
         then (let screen_size = c_sdiv (disp_width * disp_height) 8;
                   screen_distance_from_top = screen_size + 0x380;
                   screen_base = 0x400000 - screen_distance_from_top;
                   rom = ROM_WR16 0x42 0x6000 rom;
                   rom = ROM_WR16 0x44 (0x62 - 0x44) rom;
                   patch_0 = (0x46 :: u32);
                   rom = ROM_WR16 (unat (patch_0 + 0)) 0x9bfc rom;
                   rom = ROM_WR32 (unat (patch_0 + 2)) screen_distance_from_top rom;
                   rom = ROM_WR16 (unat (patch_0 + 6)) 0x6000 rom;
                   rom = ROM_WR16 (unat (patch_0 + 8)) (0x3a4 - (patch_0 + 8)) rom;
                   patch_2 = (0x32 :: u32);
                   patch_1 = patch_0 + 10;
                   wide = (if 128 \<le>s c_sdiv disp_width 8
                     then (let rom = ROM_WR16 (unat (patch_1 + 0)) 0x3a3c rom;
                               rom = ROM_WR16 (unat (patch_1 + 2)) (c_sdiv disp_width 8) rom;
                               rom = ROM_WR16 (unat (patch_1 + 4)) 0xc2c5 rom;
                               rom = ROM_WR16 (unat (patch_1 + 6)) 0x4e75 rom
                           in if patch_1 + 8 > 0x58 then Inl rom
                              else (let rom = ROM_WR16 0x2e 0x6000 rom;
                                        rom = ROM_WR16 0x30 (0x62 - 0x30) rom;
                                        rom = ROM_WR16 (unat (patch_2 + 0)) 0x303c rom;
                                        rom = ROM_WR16 (unat (patch_2 + 2)) (c_sdiv disp_width 8) rom;
                                        rom = ROM_WR16 (unat (patch_2 + 4)) 0x41f8 rom;
                                        rom = ROM_WR16 (unat (patch_2 + 6)) 0x088c rom;
                                        rom = ROM_WR16 (unat (patch_2 + 8)) 0x4e75 rom
                                    in if patch_2 + 10 > 0x41 then Inl rom else Inr rom))
                     else Inr rom)
               in case wide of
                    Inl rom \<Rightarrow> (- 1, rom)
                  | Inr rom \<Rightarrow>
                     (let rom = ROM_WR32 0x8a screen_base rom;
                          rom = ROM_WR32 0x146 screen_base rom;
                          rom = ROM_WR32 0x164 (SBCOORD screen_base disp_width
                                  (c_sdiv disp_width 2 - c_sdiv 48 2) (c_sdiv disp_height 2 + 8)) rom;
                          rom = ROM_WR16 0x188 (c_sdiv disp_width 8) rom;
                          rom = ROM_WR16 0x194 (c_sdiv disp_width 8) rom;
                          rom = ROM_WR16 0x19c (c_sdiv (6 * disp_width) 8 - 1) rom;
                          rom = ROM_WR32 0x1a4 (SBCOORD screen_base disp_width
                                  (c_sdiv disp_width 2 - 8) (c_sdiv disp_height 2 + 8 + 8)) rom;
                          rom = ROM_WR16 0x1ee (c_sdiv screen_size 4 - 1) rom;
                          rom = ROM_WR32 0xf0c (SBCOORD screen_base disp_width
                                  (c_sdiv disp_width 2 - 16) (c_sdiv disp_height 2 - 26)) rom;
                          rom = ROM_WR32 0xf18 (SBCOORD screen_base disp_width
                                  (c_sdiv disp_width 2 - 8) (c_sdiv disp_height 2 - 20)) rom;
                          rom = ROM_WR32 0x7e0 (SBCOORD screen_base disp_width
                                  (c_sdiv disp_width 2 - 16) (c_sdiv disp_height 2 - 26)) rom;
                          rom = ROM_WR32 0x7f2 (SBCOORD screen_base disp_width
                                  (c_sdiv disp_width 2 - 8) (c_sdiv disp_height 2 - 11)) rom;
                          rom = ROM_WR16 0x3a0 0x6000 rom;
                          rom = ROM_WR16 0x3a2 (patch_0 - 0x3a2) rom;
                          rom = ROM_WR16 0x474 (c_sdiv disp_width 8) rom;
                          rom = ROM_WR16 0x494 disp_height rom;
                          rom = ROM_WR16 0x498 disp_width rom;
                          rom = ROM_WR16 0xa0e disp_height rom;
                          rom = ROM_WR16 0xa10 disp_width rom;
                          rom = ROM_WR16 0xee2 (c_sdiv disp_width 8 - 4) rom;
                          rom = ROM_WR16 0xef2 (c_sdiv disp_width 8) rom;
                          rom = ROM_WR16 0xf36 (c_sdiv disp_width 8 - 2) rom;
                          rom = (if 128 \<le>s c_sdiv disp_width 8
                                 then (let rom = ROM_WR16 0x1ccc 0x4eba rom;
                                           rom = ROM_WR16 0x1cce (patch_2 - 0x1cce) rom
                                       in ROM_WR16 0x1cd0 0x4e71 rom)
                                 else ROM_WR8 0x1cd1 (c_sdiv disp_width 8) rom);
                          rom = ROM_WR16 0x1d48 (disp_width - 32) rom;
                          rom = ROM_WR16 0x1d4e (disp_width - 32) rom;
                          rom = ROM_WR16 0x1d6e (disp_height - 16) rom;
                          rom = ROM_WR16 0x1d74 disp_height rom;
                          rom = ROM_WR8 0x1d93 (c_sdiv disp_width 8) rom;
                          rom = ROM_WR16 0x1e68 disp_height rom;
                          rom = (if 128 \<le>s c_sdiv disp_width 8
                                 then (let rom = ROM_WR16 0x1d92 0x4eba rom
                                       in ROM_WR16 0x1d94 (patch_1 - 0x1d94) rom)
                                 else ROM_WR8 0x1d93 (c_sdiv disp_width 8) rom);
                          rom = ROM_WR16 0x1e6e disp_width rom;
                          rom = ROM_WR16 0x1e82 disp_height rom
                      in (0, rom)))
         else (0, rom))"

text \<open>
  \<open>rom_patch1\<close>: \<open>r = -1\<close>, and the patch only for the Mac Plus v3 version word.
\<close>

definition rom_patch1 ::
  "u8 list \<Rightarrow> u32 \<Rightarrow> mem \<Rightarrow> u32 \<Rightarrow> u32 \<Rightarrow> u32 \<Rightarrow> u32 \<times> mem" where
  "rom_patch1 sony_driver pv_sony_addr rom_base disp_width disp_height mem_size =
     (let v = rom_get_version rom_base
      in if v = ROM_PLUSv3_VERSION
         then rom_patch_plusv3 sony_driver pv_sony_addr rom_base disp_width disp_height mem_size
         else (- 1, rom_base))"

text \<open>
  \<open>rom_patch\<close>, the entry point of the emulator build, over the build constants
  \<open>DISP_WIDTH\<close>, \<open>DISP_HEIGHT\<close>, \<open>UMAC_MEMSIZE\<close>; and what \<open>main\<close> of unix_main.c does
  with the mapped ROM: \<open>return 1\<close> (\<open>Inl 1\<close>) when \<open>rom_patch\<close> fails, or when a ROM dump
  was asked for and its \<open>open\<close> or its \<open>write\<close> fails; otherwise (no dump, or a dump
  written, short or whole) it goes on to \<open>umac_init\<close> with the patched ROM (\<open>Inr\<close>).
\<close>

datatype dump_io = No_dump | Dump_open_fails | Dump_write_fails | Dump_written

definition rom_patch :: "u8 list \<Rightarrow> u32 \<Rightarrow> u32 \<Rightarrow> u32 \<Rightarrow> u32 \<Rightarrow> mem \<Rightarrow> u32 \<times> mem" where
  "rom_patch sony_driver pv_sony_addr DISP_WIDTH DISP_HEIGHT UMAC_MEMSIZE rom_base =
     rom_patch1 sony_driver pv_sony_addr rom_base DISP_WIDTH DISP_HEIGHT (UMAC_MEMSIZE * 1024)"

definition main_rom ::
  "u8 list \<Rightarrow> u32 \<Rightarrow> u32 \<Rightarrow> u32 \<Rightarrow> u32 \<Rightarrow> dump_io \<Rightarrow> mem \<Rightarrow> u32 + mem" where
  "main_rom sony_driver pv_sony_addr DISP_WIDTH DISP_HEIGHT UMAC_MEMSIZE rom_dump rom_base =
     (case rom_patch sony_driver pv_sony_addr DISP_WIDTH DISP_HEIGHT UMAC_MEMSIZE rom_base of
        (r, rom) \<Rightarrow>
          if r \<noteq> 0 then Inl 1
          else (case rom_dump of
                  No_dump \<Rightarrow> Inr rom
                | Dump_open_fails \<Rightarrow> Inl 1
                | Dump_write_fails \<Rightarrow> Inl 1
                | Dump_written \<Rightarrow> Inr rom))"

text \<open>
  Concrete inputs for evaluating the patcher: a ROM buffer that starts with the Mac
  Plus v3 version word and is zero elsewhere, and a four-byte stand-in for the driver.
\<close>

definition example_rom_v3 :: mem where
  "example_rom_v3 = (\<lambda>_. 0)(0 := 0x4d, 1 := 0x1f, 2 := 0x81, 3 := 0x72)"

definition example_sony :: "u8 list" where
  "example_sony = [1, 2, 3, 4]"

text \<open>
  For the proofs about the patch: a transformation of the ROM that overwrites a fixed
  set of offsets, none below 4, with fixed bytes, whatever the ROM held.
\<close>

definition const_patch :: "(mem \<Rightarrow> mem) \<Rightarrow> bool" where
  "const_patch f =
     (\<exists>S g. (\<forall>a \<in> S. 4 \<le> a) \<and> (\<forall>rom a. f rom a = (if a \<in> S then g a else rom a)))"

text \<open>
  The invariant of the controller: no pending bit above 7, the recorded highest level is
  the maximum pending bit, and the CPU's IRQ input holds that level.
\<close>

definition int_inv :: "umac \<Rightarrow> bool" where
  "int_inv s = ((\<forall>i. bit (g_int_controller_pending s) i \<longrightarrow> i \<le> 7) \<and>
     unat (g_int_controller_highest_int s) = max_pending_bit (g_int_controller_pending s) \<and>
     cpu_irq_level (ext_calls s) = g_int_controller_highest_int s)"

(*THEOREMS*)

section \<open>Interrupt controller: the reported level is the highest pending bit\<close>

lemma bits_set: "set (filter (bit p) [0..<32]) = {i. bit (p::u32) i}"
  by (auto dest: bit_imp_le_length)

lemma max_pending_bit_Max: "max_pending_bit p = Max (insert 0 {i. bit p i})"
  unfolding max_pending_bit_def
  using Max.set_eq_fold [of 0 "filter (bit p) [0..<32]"] 
  by (simp only: bits_set list.set)

lemma max_pending_bit_eqI:
  assumes "m = 0 \<or> bit p m" and "\<And>i. bit p i \<Longrightarrow> i \<le> m"
  shows "max_pending_bit p = m"
proof -
  have fin: "finite (insert 0 {i. bit p i})" by simp
  show ?thesis unfolding max_pending_bit_Max
    using assms by (intro Max_eqI fin) auto
qed

lemma max_pending_bit_cases: "max_pending_bit p = 0 \<or> bit p (max_pending_bit p)"
proof -
  have "Max (insert 0 {i. bit p i}) \<in> insert 0 {i. bit p i}"
    by (rule Max_in) simp_all
  then show ?thesis by (simp add: max_pending_bit_Max)
qed

lemma max_pending_bit_ge: "bit p i \<Longrightarrow> i \<le> max_pending_bit p"
  by (simp add: max_pending_bit_Max)

lemma and_push1: "(p AND 2 ^ n = 0) = (\<not> bit (p::u32) n)"
  by (simp add: and_exp_eq_0_iff_not_bit)

lemma int_scan_spec:
  "(int_scan p h = 0 \<or> bit p (unat (int_scan p h))) \<and>
   (\<forall>i. bit p i \<and> 0 < i \<and> i \<le> unat h \<longrightarrow> i \<le> unat (int_scan p h))"
proof (induction p h rule: int_scan.induct)
  case (1 p h)
  show ?case
  proof (cases "h > 0")
    case False
    then have h0: "h = 0" by (simp add: word_gt_0)
    then have "int_scan p h = 0" by (subst int_scan.simps) simp
    with h0 show ?thesis by simp
  next
    case True
    note h = this
    show ?thesis
    proof (cases "bit p (unat h)")
      case True
      with h have "int_scan p h = h" by (subst int_scan.simps) (simp add: and_push1)
      with True show ?thesis by simp
    next
      case False
      with h have eq: "int_scan p h = int_scan p (h - 1)" by (subst int_scan.simps) (simp add: and_push1)
      from h have u: "unat (h - 1) = unat h - 1" by (simp add: unat_minus_one word_gt_0)
      have IH: "(int_scan p (h - 1) = 0 \<or> bit p (unat (int_scan p (h - 1)))) \<and>
   (\<forall>i. bit p i \<and> 0 < i \<and> i \<le> unat (h - 1) \<longrightarrow> i \<le> unat (int_scan p (h - 1)))"
        using 1 h False by (simp add: and_push1)
      show ?thesis unfolding eq
      proof (intro conjI allI impI)
        show "int_scan p (h - 1) = 0 \<or> bit p (unat (int_scan p (h - 1)))" using IH by blast
      next
        fix i assume a: "bit p i \<and> 0 < i \<and> i \<le> unat h"
        with False have "i \<noteq> unat h" by auto
        with a u have "i \<le> unat (h - 1)" by arith
        with a IH show "i \<le> unat (int_scan p (h - 1))" by blast
      qed
    qed
  qed
qed

lemma int_scan_max:
  assumes "\<And>i. bit p i \<Longrightarrow> i \<le> 7"
  shows "unat (int_scan p 7) = max_pending_bit p"
proof (rule max_pending_bit_eqI [symmetric])
  show "unat (int_scan p 7) = 0 \<or> bit p (unat (int_scan p 7))"
    using int_scan_spec [of p 7] by (auto simp: unat_eq_0)
next
  fix i assume b: "bit p i"
  show "i \<le> unat (int_scan p 7)"
  proof (cases "i = 0")
    case True then show ?thesis by simp
  next
    case False
    with b assms [OF b] int_scan_spec [of p 7] show ?thesis by simp
  qed
qed

lemma cpu_irq_level_snoc: "cpu_irq_level (cs @ [M68k_set_irq v]) = v"
  by (simp add: cpu_irq_level_def)

lemma bit_or_push1: "n < 32 \<Longrightarrow> bit ((p::u32) OR 2 ^ n) i = (bit p i \<or> i = n)"
  by (auto simp: bit_or_iff bit_exp_iff)

lemma bit_and_not_push1: "n < 32 \<Longrightarrow> bit ((p::u32) AND NOT (2 ^ n)) i = (bit p i \<and> i \<noteq> n)"
  by (auto simp: bit_and_iff bit_not_iff bit_exp_iff dest: bit_imp_le_length)

lemma or_push1_same:
  assumes "n < 32"
  shows "((p::u32) \<noteq> p OR 2 ^ n) = (\<not> bit p n)"
proof
  assume "p \<noteq> p OR 2 ^ n"
  then obtain i where "bit p i \<noteq> bit (p OR 2 ^ n) i" by (auto simp: bit_eq_iff)
  with \<open>n < 32\<close> show "\<not> bit p n" by (auto simp: bit_or_push1)
next
  assume "\<not> bit p n"
  moreover have "bit (p OR 2 ^ n) n" using \<open>n < 32\<close> by (simp add: bit_or_push1)
  ultimately show "p \<noteq> p OR 2 ^ n" by metis
qed

lemma int_controller_set_inv:
  assumes "int_inv s" and "v \<le> 7"
  shows "int_inv (int_controller_set v s)"
proof -
  let ?p = "g_int_controller_pending s"
  let ?n = "unat v"
  from assms(2) have n7: "?n \<le> 7" by (simp add: word_le_nat_alt)
  then have n32: "?n < 32" by simp
  from assms(1) have b7: "\<And>i. bit ?p i \<Longrightarrow> i \<le> 7"
    and hi: "unat (g_int_controller_highest_int s) = max_pending_bit ?p"
    and irq: "cpu_irq_level (ext_calls s) = g_int_controller_highest_int s"
    by (auto simp: int_inv_def)
  have b7': "\<And>i. bit (?p OR 2 ^ ?n) i \<Longrightarrow> i \<le> 7"
    using b7 n7 by (auto simp: bit_or_push1 [OF n32])
  show ?thesis
  proof (cases "bit ?p ?n")
    case True
    then have "?p OR 2 ^ ?n = ?p" using or_push1_same [OF n32, of ?p] by auto
    then show ?thesis using assms(1)
      by (simp add: int_controller_set_def Let_def int_inv_def)
  next
    case False
    then have ne: "?p \<noteq> ?p OR 2 ^ ?n" using or_push1_same [OF n32, of ?p] by auto
    show ?thesis
    proof (cases "v > g_int_controller_highest_int s")
      case True
      then have lt: "max_pending_bit ?p < ?n" using hi by (simp add: word_less_nat_alt)
      have "max_pending_bit (?p OR 2 ^ ?n) = ?n"
        by (rule max_pending_bit_eqI) (use lt max_pending_bit_ge [of ?p] in \<open>auto simp: bit_or_push1 [OF n32] dest!: max_pending_bit_ge\<close>)
      then show ?thesis using True ne b7'
        by (simp add: int_controller_set_def Let_def int_inv_def log_call_def cpu_irq_level_snoc)
    next
      case False
      then have ge: "?n \<le> max_pending_bit ?p" using hi by (simp add: word_less_nat_alt)
      have "max_pending_bit (?p OR 2 ^ ?n) = max_pending_bit ?p"
        by (rule max_pending_bit_eqI) (use ge max_pending_bit_cases [of ?p] in \<open>auto simp: bit_or_push1 [OF n32] dest!: max_pending_bit_ge\<close>)
      then show ?thesis using False ne b7' hi irq
        by (simp add: int_controller_set_def Let_def int_inv_def)
    qed
  qed
qed

lemma int_controller_clear_inv:
  assumes "int_inv s" and "v \<le> 7"
  shows "int_inv (int_controller_clear v s)"
proof -
  let ?p = "g_int_controller_pending s"
  let ?n = "unat v"
  from assms(2) have n7: "?n \<le> 7" by (simp add: word_le_nat_alt)
  then have n32: "?n < 32" by simp
  from assms(1) have b7: "\<And>i. bit ?p i \<Longrightarrow> i \<le> 7"
    by (auto simp: int_inv_def)
  have b7': "\<And>i. bit (?p AND NOT (2 ^ ?n)) i \<Longrightarrow> i \<le> 7"
    using b7 by (auto simp: bit_and_not_push1 [OF n32])
  show ?thesis using b7' int_scan_max [of "?p AND NOT (2 ^ ?n)"]
    by (simp add: int_controller_clear_def Let_def int_inv_def log_call_def cpu_irq_level_snoc)
qed

lemma int_inv_initial: "int_inv (umac_initial r)"
  by (simp add: int_inv_def umac_initial_def cpu_irq_level_def max_pending_bit_def)

lemma int_run_inv:
  "int_inv s \<Longrightarrow> \<forall>c \<in> set cs. int_level c \<le> 7 \<Longrightarrow> int_inv (int_run cs s)"
  unfolding int_run_def
proof (induction cs arbitrary: s)
  case Nil then show ?case by simp
next
  case (Cons c cs)
  then have "int_inv (int_apply c s)"
    by (cases c) (auto intro: int_controller_set_inv int_controller_clear_inv)
  with Cons show ?case by simp
qed


text \<open>
  C2. For every sequence of \<open>int_controller_set(level)\<close> and
  \<open>int_controller_clear(level)\<close> calls with level in 1..7, run from the initial state,
  after the last call (so after each call: every prefix is such a sequence) the recorded
  \<open>g_int_controller_highest_int\<close> is the maximum bit index set in the pending mask, 0 for
  the empty mask, and it is the level last passed to \<open>m68k_set_irq\<close>.
\<close>

theorem int_controller_reports_max_pending:
  assumes "\<forall>c \<in> set cs. 1 \<le> int_level c \<and> int_level c \<le> 7"
  shows "unat (g_int_controller_highest_int (int_run cs (umac_initial r))) =
           Max (insert 0 {i. bit (g_int_controller_pending (int_run cs (umac_initial r))) i}) \<and>
         unat (g_int_controller_highest_int (int_run cs (umac_initial r))) =
           max_pending_bit (g_int_controller_pending (int_run cs (umac_initial r))) \<and>
         cpu_irq_level (ext_calls (int_run cs (umac_initial r))) =
           g_int_controller_highest_int (int_run cs (umac_initial r))"
proof -
  from assms have "\<forall>c \<in> set cs. int_level c \<le> 7" by simp
  with int_inv_initial have "int_inv (int_run cs (umac_initial r))" by (rule int_run_inv)
  then show ?thesis by (simp add: int_inv_def max_pending_bit_Max)
qed

theorem int_controller_reports_max_pending_witness:
  "g_int_controller_pending
     (int_run [Int_set 3, Int_set 5, Int_set 1, Int_clear 5] (umac_initial zero_mem)) = 0x0A \<and>
   g_int_controller_highest_int
     (int_run [Int_set 3, Int_set 5, Int_set 1, Int_clear 5] (umac_initial zero_mem)) = 3 \<and>
   max_pending_bit 0x0A = 3 \<and>
   cpu_irq_level (ext_calls
     (int_run [Int_set 3, Int_set 5, Int_set 1, Int_clear 5] (umac_initial zero_mem))) = 3"
proof -
  let ?cs = "[Int_set 3, Int_set 5, Int_set 1, Int_clear 5]"
  have h: "\<forall>c \<in> set ?cs. 1 \<le> int_level c \<and> int_level c \<le> 7" by simp
  have p: "g_int_controller_pending (int_run ?cs (umac_initial zero_mem)) = 0x0A"
    by (simp add: int_run_def int_controller_set_def int_controller_clear_def Let_def
        umac_initial_def log_call_def)
  have m: "max_pending_bit 0x0A = 3"
    by (simp add: max_pending_bit_def upt_rec bit_numeral_rec)
  from int_controller_reports_max_pending [OF h, of zero_mem] p m
  have "unat (g_int_controller_highest_int (int_run ?cs (umac_initial zero_mem))) = 3"
    and c: "cpu_irq_level (ext_calls (int_run ?cs (umac_initial zero_mem))) =
      g_int_controller_highest_int (int_run ?cs (umac_initial zero_mem))"
    by simp_all
  then have "(word_of_nat (unat (g_int_controller_highest_int
      (int_run ?cs (umac_initial zero_mem)))) :: u32) = word_of_nat 3"
    by (simp only:)
  then have "g_int_controller_highest_int (int_run ?cs (umac_initial zero_mem)) = 3"
    by simp
  with p m c show ?thesis by simp
qed

section \<open>Casts between the integer widths\<close>

lemma ucast_u8_u32_id: "(ucast (ucast (d::u8) :: u32) :: u8) = d"
  by (rule bit_word_eqI) (simp add: bit_ucast_iff)

lemma ucast_u16_u32_id: "(ucast (ucast (x::u16) :: u32) :: u16) = x"
  by (rule bit_word_eqI) (simp add: bit_ucast_iff)

lemma ucast_u8_u32_eq_0: "((ucast (d::u8) :: u32) = 0) = (d = 0)"
proof
  assume "(ucast d :: u32) = 0"
  then have "(ucast (ucast d :: u32) :: u8) = ucast (0 :: u32)" by simp
  then show "d = 0" by (simp add: ucast_u8_u32_id)
qed simp

section \<open>Overlay flag and the instruction-fetch dispatch\<close>

text \<open>
  What \<open>via_ra_changed\<close> does to the dispatch: the flag is always taken from bit 4, the
  pointer is updated only when bit 4 differs from the static \<open>oldval\<close>.
\<close>

lemma via_ra_changed_overlay:
  "overlay (via_ra_changed a val s) = (if bit val 4 then 1 else 0)"
proof -
  have "(val AND 0x10 \<noteq> 0) = bit val 4"
    using and_exp_eq_0_iff_not_bit [of val 4] by simp
  then show ?thesis
    by (simp add: via_ra_changed_def Let_def update_overlay_layout_def log_call_def)
qed

lemma umac_reset_keeps_dispatch:
  "cpu_read_instr (umac_reset s) = cpu_read_instr s \<and> overlay (umac_reset s) = 1"
  by (simp add: umac_reset_def log_call_def)

text \<open>
  C1. The claim is that after every \<open>via_ra_changed\<close> and after \<open>umac_reset\<close> the fetch
  accessor is the overlay version whenever the overlay flag is set. From the initial
  state, the port A write \<open>0xEF\<close> (bit 4 clear) followed by \<open>umac_reset\<close> leaves
  \<open>overlay = 1\<close> with \<open>cpu_read_instr\<close> still pointing at \<open>cpu_read_instr_normal\<close>, in
  both settings of \<open>ENABLE_AUDIO\<close>: \<open>umac_reset\<close> sets the flag and never calls
  \<open>update_overlay_layout\<close>.
\<close>

theorem overlay_set_but_fetch_normal_after_reset:
  "overlay (umac_reset (via_ra_changed a 0xEF (umac_initial r))) = 1 \<and>
   cpu_read_instr (umac_reset (via_ra_changed a 0xEF (umac_initial r))) = Cpu_read_instr_normal"
  by (simp add: umac_reset_def via_ra_changed_def umac_initial_def update_overlay_layout_def
      log_call_def Let_def)

text \<open>
  Built without \<open>ENABLE_AUDIO\<close>, \<open>oldval\<close> stays \<open>0x10\<close> for ever (its assignment is
  inside the \<open>#if\<close>), so a write that sets bit 4 again never updates the pointer: after
  the writes \<open>0xEF\<close>, \<open>0xFF\<close> the flag is set and the fetch path is the normal one.
\<close>

lemma overlay_set_but_fetch_normal_without_audio:
  "overlay (via_ra_changed False 0xFF (via_ra_changed False 0xEF (umac_initial r))) = 1 \<and>
   cpu_read_instr (via_ra_changed False 0xFF (via_ra_changed False 0xEF (umac_initial r))) =
     Cpu_read_instr_normal"
  by (simp add: via_ra_changed_def umac_initial_def update_overlay_layout_def Let_def)

section \<open>Mouse: what \<open>umac_mouse\<close> changes\<close>

lemma rd16_wr16_same: "rd16 (wr16 a v m) a = v"
  by (rule bit_word_eqI)
    (auto simp add: rd16_def wr16_def bit_or_iff bit_push_bit_iff bit_word_ucast_iff
      bit_drop_bit_eq)

lemma rd16_wr16_other: "b + 1 < a \<or> a + 1 < b \<Longrightarrow> rd16 (wr16 a v m) b = rd16 m b"
  by (auto simp add: rd16_def wr16_def)

lemma rd16_wr8_other: "a \<noteq> b \<Longrightarrow> a \<noteq> b + 1 \<Longrightarrow> rd16 (wr8 a v m) b = rd16 m b"
  by (auto simp add: rd16_def wr8_def)

text \<open>
  The motion goes to the low-memory mouse variables: \<open>MTemp_h\<close> gets the low 16 bits of
  old + deltax, \<open>MTemp_v\<close> those of old - deltay.
\<close>

lemma umac_mouse_ram:
  "RAM_RD16 MTemp_h (umac_mouse dx dy b s) = ucast (ucast (RAM_RD16 MTemp_h s) + dx) \<and>
   RAM_RD16 MTemp_v (umac_mouse dx dy b s) = ucast (ucast (RAM_RD16 MTemp_v s) - dy)"
  by (simp add: umac_mouse_def Let_def RAM_RD16_def RAM_WR16_def RAM_WR8_def MTemp_h_def
      MTemp_v_def CrsrNew_def rd16_wr16_same rd16_wr16_other rd16_wr8_other ucast_u16_u32_id)

lemma umac_mouse_quadbits: "via_quadbits (umac_mouse dx dy b s) = via_quadbits s"
  by (simp add: umac_mouse_def Let_def RAM_WR16_def RAM_WR8_def)

lemma umac_mouse_pressed: "via_mouse_pressed (umac_mouse dx dy b s) = ucast b"
  by (simp add: umac_mouse_def Let_def RAM_WR16_def RAM_WR8_def)

text \<open>With any motion the byte at \<open>CrsrCouple\<close> is copied to \<open>CrsrNew\<close>; with none, RAM is untouched.\<close>

lemma umac_mouse_crsr:
  "\<not> (dx = 0 \<and> dy = 0) \<Longrightarrow>
     RAM_RD8 CrsrNew (umac_mouse dx dy b s) = RAM_RD8 CrsrCouple s"
  by (auto simp add: umac_mouse_def Let_def RAM_RD8_def RAM_WR16_def RAM_WR8_def rd8_def wr8_def
      wr16_def MTemp_h_def MTemp_v_def CrsrNew_def CrsrCouple_def)

lemma umac_mouse_still: "ram (umac_mouse 0 0 b s) = ram s"
  by (simp add: umac_mouse_def Let_def)

lemma umac_mouse_ram_frame:
  "a \<notin> {MTemp_h, MTemp_h + 1, MTemp_v, MTemp_v + 1, CrsrNew} \<Longrightarrow>
     ram (umac_mouse dx dy b s) a = ram s a"
  by (simp add: umac_mouse_def Let_def RAM_WR16_def RAM_WR8_def wr8_def wr16_def)

lemma button_fits_byte:
  "button \<le> 0xFF \<Longrightarrow> ((ucast (button::u32) :: u8) = 0) = (button = 0)"
  by (simp add: word_le_nat_alt word_eq_iff_unsigned [where ?'a = nat] unsigned_ucast_eq
      take_bit_nat_eq_self)

text \<open>
  C3, as the code has it. \<open>umac_mouse\<close> never writes the quadrature bits: whatever the
  motion, \<open>via_quadbits\<close> is what it was, and bits 4 and 5 of \<open>via_rb_in\<close> read those
  unchanged bits. The motion is delivered through low memory instead: the 16-bit
  \<open>MTemp_h\<close> becomes old + deltax, \<open>MTemp_v\<close> becomes old - deltay, \<open>CrsrNew\<close> gets the
  byte at \<open>CrsrCouple\<close> when deltax or deltay is nonzero, RAM is untouched when both are
  0, and no other byte of RAM ever changes. With the quadrature bits at their only
  value 0 (nothing in main.c assigns them) and a \<open>button\<close> value from 0 to 255, port B
  bit 3 reads 0 exactly when \<open>button\<close> is nonzero.
\<close>

theorem umac_mouse_leaves_quadrature:
  "via_quadbits (umac_mouse dx dy button s) = via_quadbits s \<and>
   bit (via_rb_in (umac_mouse dx dy button s)) 4 = bit (via_quadbits s) 4 \<and>
   bit (via_rb_in (umac_mouse dx dy button s)) 5 = bit (via_quadbits s) 5 \<and>
   RAM_RD16 MTemp_h (umac_mouse dx dy button s) = ucast (ucast (RAM_RD16 MTemp_h s) + dx) \<and>
   RAM_RD16 MTemp_v (umac_mouse dx dy button s) = ucast (ucast (RAM_RD16 MTemp_v s) - dy) \<and>
   (\<not> (dx = 0 \<and> dy = 0) \<longrightarrow>
      RAM_RD8 CrsrNew (umac_mouse dx dy button s) = RAM_RD8 CrsrCouple s) \<and>
   (dx = 0 \<and> dy = 0 \<longrightarrow> ram (umac_mouse dx dy button s) = ram s) \<and>
   (\<forall>a. a \<notin> {MTemp_h, MTemp_h + 1, MTemp_v, MTemp_v + 1, CrsrNew} \<longrightarrow>
        ram (umac_mouse dx dy button s) a = ram s a) \<and>
   (via_quadbits s = 0 \<and> button \<le> 0xFF \<longrightarrow>
      via_rb_in (umac_mouse dx dy button s) = (if button = 0 then 8 else 0) \<and>
      (\<not> bit (via_rb_in (umac_mouse dx dy button s)) 3) = (button \<noteq> 0))"
proof -
  have q: "via_quadbits s = 0 \<and> button \<le> 0xFF \<longrightarrow>
      via_rb_in (umac_mouse dx dy button s) = (if button = 0 then 8 else 0) \<and>
      (\<not> bit (via_rb_in (umac_mouse dx dy button s)) 3) = (button \<noteq> 0)"
    using button_fits_byte [of button]
    by (auto simp add: via_rb_in_def Let_def umac_mouse_quadbits umac_mouse_pressed)
  have b: "bit (via_rb_in (umac_mouse dx dy button s)) 4 = bit (via_quadbits s) 4"
    "bit (via_rb_in (umac_mouse dx dy button s)) 5 = bit (via_quadbits s) 5"
    by (simp_all add: via_rb_in_def Let_def umac_mouse_quadbits bit_or_iff bit_exp_iff)
  from q b umac_mouse_quadbits [of dx dy button s] umac_mouse_ram [of dx dy button s]
    umac_mouse_crsr [of dx dy button s] umac_mouse_still [of button s]
    umac_mouse_ram_frame [of _ dx dy button s]
  show ?thesis by blast
qed

theorem umac_mouse_leaves_quadrature_witness:
  "RAM_RD16 MTemp_h (umac_initial example_ram) = 0xFFFE \<and>
   RAM_RD16 MTemp_h (umac_mouse 3 (- 2) 1 (umac_initial example_ram)) = 1 \<and>
   RAM_RD16 MTemp_v (umac_mouse 3 (- 2) 1 (umac_initial example_ram)) = 2 \<and>
   RAM_RD8 CrsrNew (umac_initial example_ram) = 0 \<and>
   RAM_RD8 CrsrNew (umac_mouse 3 (- 2) 1 (umac_initial example_ram)) = 0xFF \<and>
   ram (umac_mouse 0 0 1 (umac_initial example_ram)) = example_ram \<and>
   via_rb_in (umac_mouse 3 (- 2) 1 (umac_initial example_ram)) = 0 \<and>
   via_rb_in (umac_mouse 3 (- 2) 0 (umac_initial example_ram)) = 8"
proof -
  let ?s = "umac_initial example_ram"
  have q: "via_quadbits ?s = 0" "ram ?s = example_ram" by (simp_all add: umac_initial_def)
  have r: "RAM_RD16 MTemp_h ?s = 0xFFFE" "RAM_RD8 CrsrCouple ?s = 0xFF"
    "RAM_RD16 MTemp_v ?s = 0" "RAM_RD8 CrsrNew ?s = 0"
    by (simp_all add: RAM_RD16_def RAM_RD8_def rd16_def rd8_def umac_initial_def example_ram_def
        zero_mem_def MTemp_h_def MTemp_v_def CrsrCouple_def CrsrNew_def)
  from umac_mouse_leaves_quadrature [of 3 "- 2" 1 ?s]
    umac_mouse_leaves_quadrature [of 3 "- 2" 0 ?s]
    umac_mouse_leaves_quadrature [of 0 0 1 ?s] q r
  show ?thesis by simp
qed

text \<open>
  The claim as written fails: the quadrature pair does not follow the motion. After
  the motions (1, 1) and (-1, -1) from the initial state, port B reads what it read
  before any motion, with bits 4 and 5 clear.
\<close>

theorem umac_mouse_quadrature_counterexample:
  "via_rb_in (umac_mouse 1 1 0 (umac_initial zero_mem)) = via_rb_in (umac_initial zero_mem) \<and>
   via_rb_in (umac_mouse (- 1) (- 1) 0 (umac_initial zero_mem)) =
     via_rb_in (umac_initial zero_mem) \<and>
   \<not> bit (via_rb_in (umac_mouse 1 1 0 (umac_initial zero_mem))) 4 \<and>
   \<not> bit (via_rb_in (umac_mouse 1 1 0 (umac_initial zero_mem))) 5 \<and>
   \<not> bit (via_rb_in (umac_mouse (- 1) (- 1) 0 (umac_initial zero_mem))) 4 \<and>
   \<not> bit (via_rb_in (umac_mouse (- 1) (- 1) 0 (umac_initial zero_mem))) 5"
  by (simp add: via_rb_in_def umac_mouse_def Let_def RAM_WR16_def RAM_WR8_def umac_initial_def)

section \<open>Keyboard: responses and the one-quantum delay\<close>

lemma ucast_evt:
  "(ucast ((ucast (sc::u8) :: u32) OR (if down \<noteq> (0::u32) then 0 else 0x80)) :: u8) =
     sc OR (if down \<noteq> 0 then 0 else 0x80)"
  by (rule bit_word_eqI) (auto simp add: bit_ucast_iff bit_or_iff)

lemma evt_not_empty:
  "(ucast (sc::u8) :: u32) OR (if down \<noteq> (0::u32) then 0 else 0x80) \<noteq> - 1"
proof
  assume a: "(ucast (sc::u8) :: u32) OR (if down \<noteq> (0::u32) then 0 else 0x80) = - 1"
  have "\<not> bit ((ucast (sc::u8) :: u32) OR (if down \<noteq> (0::u32) then 0 else 0x80)) 8"
    by (auto simp add: bit_or_iff bit_word_ucast_iff bit_numeral_rec)
  with a show False by simp
qed

lemma kbd_rx_0: "kbd_rx 0 s = s"
  by (simp add: kbd_rx_def KBD_CMD_GET_MODEL_def KBD_CMD_INQUIRY_def)

text \<open>
  C5. Processing a command byte (\<open>kbd_rx\<close>): GET_MODEL (0x16) hands 0x0B to
  \<open>via_sr_rx\<close>; INQUIRY (0x10) hands it the buffered event and empties the buffer
  (\<open>kbd_pending_evt = -1\<close>), or hands it 0x7B when the buffer is empty; any other byte
  leaves the state, and so the log of \<open>via_sr_rx\<close> calls, as it was. An event buffered
  by \<open>umac_kbd_event(scancode, down)\<close> is the scancode with bit 7 set for a release.
\<close>

theorem kbd_rx_responses:
  "kbd_rx 0x16 s = log_call (Via_sr_rx 0x0B) s \<and>
   (kbd_pending_evt s \<noteq> - 1 \<longrightarrow>
      kbd_rx 0x10 s =
        (log_call (Via_sr_rx (ucast (kbd_pending_evt s))) s)\<lparr>kbd_pending_evt := - 1\<rparr>) \<and>
   kbd_rx 0x10 (umac_kbd_event sc down s) =
     (log_call (Via_sr_rx (sc OR (if down \<noteq> 0 then 0 else 0x80))) s)
       \<lparr>kbd_pending_evt := - 1\<rparr> \<and>
   (kbd_pending_evt s = - 1 \<longrightarrow> kbd_rx 0x10 s = log_call (Via_sr_rx 0x7B) s) \<and>
   (d \<noteq> 0x16 \<and> d \<noteq> 0x10 \<longrightarrow> kbd_rx d s = s)"
  using evt_not_empty [of sc down] ucast_evt [of sc down]
  by (simp add: kbd_rx_def umac_kbd_event_def KBD_CMD_GET_MODEL_def KBD_CMD_INQUIRY_def
      KBD_MODEL_def KBD_RSP_NULL_def via_sr_rx_def log_call_def)

theorem kbd_rx_responses_witness:
  "ext_calls (kbd_rx 0x16 (umac_initial zero_mem)) = [Via_sr_rx 0x0B] \<and>
   ext_calls (kbd_rx 0x10 (umac_initial zero_mem)) = [Via_sr_rx 0x7B] \<and>
   ext_calls (kbd_rx 0x10 (umac_kbd_event 0x31 0 (umac_initial zero_mem))) = [Via_sr_rx 0xB1] \<and>
   kbd_pending_evt (kbd_rx 0x10 (umac_kbd_event 0x31 0 (umac_initial zero_mem))) = - 1 \<and>
   ext_calls (kbd_rx 0x14 (umac_initial zero_mem)) = []"
proof -
  have e: "kbd_pending_evt (umac_initial zero_mem) = - 1" "(0x14 :: u8) \<noteq> 0x16 \<and> (0x14 :: u8) \<noteq> 0x10"
    by (simp_all add: umac_initial_def)
  from kbd_rx_responses [of "umac_initial zero_mem" "0x31" 0 "0x14"] e
  show ?thesis by (simp add: log_call_def umac_initial_def)
qed

text \<open>
  C6. A command byte \<open>d\<close> is recorded by \<open>via_sr_tx\<close> with the time of the transmit. At
  any later state \<open>s'\<close> that still holds that command and time stamp, the deferred-work
  check does nothing while the elapsed virtual time \<open>global_time_us s' - global_time_us s\<close>
  is at most \<open>UMAC_EXECLOOP_QUANTUM\<close> microseconds (the length of one execution-loop
  quantum), and once it is more the check processes the command through \<open>kbd_rx\<close> and
  clears it. For the byte 0, which the code also uses for "no command pending", \<open>kbd_rx\<close>
  is not called; \<open>kbd_rx 0\<close> would only print a diagnostic (\<open>kbd_rx_0\<close>), so the states
  agree.
\<close>

theorem kbd_command_waits_one_quantum:
  assumes "kbd_last_cmd s' = kbd_last_cmd (via_sr_tx d s)"
    and "kbd_last_cmd_time s' = kbd_last_cmd_time (via_sr_tx d s)"
  shows "(global_time_us s' - global_time_us s \<le> ucast UMAC_EXECLOOP_QUANTUM \<longrightarrow>
            kbd_check_work s' = s') \<and>
         (global_time_us s' - global_time_us s > ucast UMAC_EXECLOOP_QUANTUM \<longrightarrow>
            kbd_check_work s' = (kbd_rx d s')\<lparr>kbd_last_cmd := 0\<rparr> \<and>
            kbd_last_cmd (kbd_check_work s') = 0)"
proof (cases "d = 0")
  case True
  with assms have "kbd_last_cmd s' = 0" by (simp add: via_sr_tx_def)
  then have "kbd_check_work s' = s'" "s'\<lparr>kbd_last_cmd := 0\<rparr> = s'"
    by (simp_all add: kbd_check_work_def)
  with True \<open>kbd_last_cmd s' = 0\<close> show ?thesis by (simp add: kbd_rx_0)
next
  case False
  with assms show ?thesis
    by (simp add: kbd_check_work_def UMAC_EXECLOOP_QUANTUM_def via_sr_tx_def ucast_u8_u32_id
        ucast_u8_u32_eq_0 not_less [symmetric])
qed

theorem kbd_command_waits_one_quantum_witness:
  "kbd_check_work ((via_sr_tx 0x16 (umac_initial zero_mem))\<lparr>global_time_us := 5000\<rparr>) =
     (via_sr_tx 0x16 (umac_initial zero_mem))\<lparr>global_time_us := 5000\<rparr> \<and>
   ext_calls (kbd_check_work ((via_sr_tx 0x16 (umac_initial zero_mem))\<lparr>global_time_us := 5001\<rparr>)) =
     [Via_sr_rx 0x0B] \<and>
   kbd_last_cmd (kbd_check_work ((via_sr_tx 0x16 (umac_initial zero_mem))\<lparr>global_time_us := 5001\<rparr>)) = 0"
proof -
  let ?s = "umac_initial zero_mem"
  let ?a = "(via_sr_tx 0x16 ?s)\<lparr>global_time_us := 5000\<rparr>"
  let ?b = "(via_sr_tx 0x16 ?s)\<lparr>global_time_us := 5001\<rparr>"
  have t: "global_time_us ?s = 0" by (simp add: umac_initial_def)
  have "kbd_check_work ?a = ?a"
    using kbd_command_waits_one_quantum [of ?a "0x16" ?s] t
    by (simp add: via_sr_tx_def UMAC_EXECLOOP_QUANTUM_def)
  moreover have "kbd_check_work ?b = (kbd_rx 0x16 ?b)\<lparr>kbd_last_cmd := 0\<rparr>"
    using kbd_command_waits_one_quantum [of ?b "0x16" ?s] t
    by (simp add: via_sr_tx_def UMAC_EXECLOOP_QUANTUM_def)
  ultimately show ?thesis
    by (simp add: kbd_rx_def KBD_CMD_GET_MODEL_def KBD_MODEL_def via_sr_rx_def log_call_def
        via_sr_tx_def umac_initial_def)
qed


text \<open>
  Where the responses come from: in one pass of the body of \<open>umac_loop\<close> nothing but
  the deferred-work check at its end hands a byte to \<open>via_sr_rx\<close>, whatever the CPU,
  the VIA, the SCC and the disc service do; and the check hands none while the pending
  command is younger than the quantum.
\<close>

lemma kbd_responses_log_call:
  "kbd_responses (log_call c s) = kbd_responses s @ (case c of Via_sr_rx b \<Rightarrow> [b] | _ \<Rightarrow> [])"
  by (simp add: kbd_responses_def log_call_def)

lemma kbd_responses_upd [simp]:
  "kbd_responses (s\<lparr>ram := m\<rparr>) = kbd_responses s"
  "kbd_responses (s\<lparr>guard_val := g, sim_done := d\<rparr>) = kbd_responses s"
  "kbd_responses (s\<lparr>global_cycles := gc\<rparr>) = kbd_responses s"
  "kbd_responses (s\<lparr>global_time_us := gt\<rparr>) = kbd_responses s"
  "kbd_responses (s\<lparr>iwm_regs := ir\<rparr>) = kbd_responses s"
  by (simp_all add: kbd_responses_def)

lemma kbd_responses_do_callback: "kbd_responses (do_callback hw cb s) = kbd_responses s"
  by (cases cb)
    (simp_all add: kbd_responses_def via_ra_changed_def via_rb_changed_def via_sr_tx_def
      via_irq_set_def scc_irq_set_def umac_disc_ejected_def umac_reset_def log_call_def
      update_overlay_layout_def Let_def)

lemma kbd_responses_do_callbacks: "kbd_responses (do_callbacks hw cbs s) = kbd_responses s"
  unfolding do_callbacks_def
  by (induction cbs arbitrary: s) (simp_all add: kbd_responses_do_callback)

lemma kbd_responses_devices:
  "kbd_responses (via_write hw a v s) = kbd_responses s"
  "kbd_responses (via_tick hw c s) = kbd_responses s"
  "kbd_responses (snd (via_limit_cycles hw c s)) = kbd_responses s"
  "kbd_responses (snd (via_read hw a s)) = kbd_responses s"
  "kbd_responses (snd (scc_read hw a s)) = kbd_responses s"
  "kbd_responses (scc_write hw a v s) = kbd_responses s"
  "kbd_responses (snd (disc_pv_hook hw v s)) = kbd_responses s"
  by (simp_all add: via_write_def via_tick_def via_limit_cycles_def via_read_def scc_read_def
      scc_write_def disc_pv_hook_def Let_def kbd_responses_do_callbacks kbd_responses_log_call
      split: prod.splits)

lemma kbd_responses_exit_error: "kbd_responses (outcome_state (exit_error s)) = kbd_responses s"
  by (simp add: exit_error_def outcome_state_def)

lemma kbd_responses_cpu_read_byte:
  "kbd_responses (outcome_state (cpu_read_byte hw a s)) = kbd_responses s"
  using kbd_responses_devices(4) [of hw a s] kbd_responses_devices(5) [of hw a s]
  by (cases "via_read hw a s"; cases "scc_read hw a s")
    (simp add: cpu_read_byte_def outcome_state_def)

lemma kbd_responses_cpu_write_byte:
  "kbd_responses (outcome_state (cpu_write_byte hw a v s)) = kbd_responses s"
proof -
  have "kbd_responses (outcome_state (case disc_pv_hook hw v s of
      (r, s1) \<Rightarrow> if r \<noteq> 0 then exit_error s1 else Returns () s1)) = kbd_responses s"
    using kbd_responses_devices(7) [of hw v s]
    by (cases "disc_pv_hook hw v s") (auto simp: exit_error_def outcome_state_def)
  then show ?thesis
    by (simp add: cpu_write_byte_def Let_def)
      (simp add: outcome_state_def kbd_responses_devices kbd_responses_log_call RAM_WR8_def
        iwm_write_def)
qed

lemma outcome_state_drop_value: "outcome_state (drop_value x) = outcome_state x"
  by (simp add: outcome_state_def drop_value_def split: outcome.splits)

lemma kbd_responses_bus_access:
  "kbd_responses (outcome_state (bus_access hw b s)) = kbd_responses s"
proof (cases b)
  case (Read_byte a)
  then show ?thesis by (simp add: outcome_state_drop_value kbd_responses_cpu_read_byte)
next
  case (Write_byte a v)
  then show ?thesis by (simp add: kbd_responses_cpu_write_byte)
qed (auto simp add: drop_value_def outcome_state_def cpu_read_word_def
    cpu_read_long_def cpu_read_word_dasm_def cpu_read_long_dasm_def cpu_write_word_def
    cpu_write_long_def exit_error_def RAM_WR16_def RAM_WR32_def
    split: outcome.splits)

lemma kbd_responses_m68k_bus:
  "kbd_responses (outcome_state (m68k_bus hw bs s)) = kbd_responses s"
proof (induction bs arbitrary: s)
  case Nil then show ?case by (simp add: outcome_state_def)
next
  case (Cons b bs)
  show ?case
    using kbd_responses_bus_access [of hw b s] Cons.IH
    by (cases "bus_access hw b s") (simp_all add: outcome_state_def)
qed

lemma kbd_responses_m68k_execute:
  "kbd_responses (outcome_state (m68k_execute hw c s)) = kbd_responses s"
proof -
  let ?s0 = "log_call (M68k_execute c) s"
  obtain ops used where x: "x_m68k_execute hw c ?s0 = (ops, used)"
    by (cases "x_m68k_execute hw c ?s0") auto
  from kbd_responses_m68k_bus [of hw ops ?s0] x show ?thesis
    by (simp add: m68k_execute_def Let_def outcome_state_def kbd_responses_log_call
        split: outcome.splits)
qed

lemma umac_loop_body_kbd:
  "(case umac_loop_body hw s of
      Returns r s' \<Rightarrow> \<exists>s5. s' = kbd_check_work s5 \<and> kbd_responses s5 = kbd_responses s
    | Longjmp s' \<Rightarrow> kbd_responses s' = kbd_responses s)"
proof -
  obtain c s1 where l: "via_limit_cycles hw (UMAC_EXECLOOP_QUANTUM * 8) s = (c, s1)"
    by (cases "via_limit_cycles hw (UMAC_EXECLOOP_QUANTUM * 8) s") auto
  with kbd_responses_devices(3) [of hw "UMAC_EXECLOOP_QUANTUM * 8" s]
  have k1: "kbd_responses s1 = kbd_responses s" by simp
  show ?thesis
  proof (cases "m68k_execute hw c s1")
    case (Longjmp s2)
    with kbd_responses_m68k_execute [of hw c s1] k1 l show ?thesis
      by (simp add: umac_loop_body_def Let_def outcome_state_def)
  next
    case (Returns used s2)
    with kbd_responses_m68k_execute [of hw c s1] k1
    have k2: "kbd_responses s2 = kbd_responses s" by (simp add: outcome_state_def)
    with Returns l show ?thesis
      by (simp add: umac_loop_body_def Let_def)
        (rule exI, rule conjI, rule refl, simp add: kbd_responses_devices)
  qed
qed


lemma kbd_check_work_quiet:
  "global_time_us s - kbd_last_cmd_time s \<le> ucast UMAC_EXECLOOP_QUANTUM \<Longrightarrow>
     kbd_responses (kbd_check_work s) = kbd_responses s"
  by (simp add: kbd_check_work_def not_less [symmetric])

section \<open>ROM patcher: refusal, idempotence, frame\<close>

lemma const_patchI:
  assumes "\<And>a. a \<in> S \<Longrightarrow> 4 \<le> a" and "\<And>rom a. f rom a = (if a \<in> S then g a else rom a)"
  shows "const_patch f"
  unfolding const_patch_def using assms by blast

lemma const_patch_id: "const_patch (\<lambda>rom. rom)"
  by (rule const_patchI [where S = "{}"]) simp_all

lemma const_patch_upd:
  assumes "const_patch f" and "4 \<le> k"
  shows "const_patch (\<lambda>rom. (f rom)(k := v))"
proof -
  from assms(1) obtain S g where S: "\<And>a. a \<in> S \<Longrightarrow> 4 \<le> a"
    and f: "\<And>rom a. f rom a = (if a \<in> S then g a else rom a)"
    unfolding const_patch_def by blast
  show ?thesis
    by (rule const_patchI [where S = "insert k S" and g = "g(k := v)"])
      (use S assms(2) f in auto)
qed

lemma const_patch_WR8:
  "const_patch f \<Longrightarrow> 4 \<le> k \<Longrightarrow> const_patch (\<lambda>rom. ROM_WR8 k d (f rom))"
  unfolding ROM_WR8_def by (simp add: const_patch_upd)

lemma const_patch_WR16:
  "const_patch f \<Longrightarrow> 4 \<le> k \<Longrightarrow> const_patch (\<lambda>rom. ROM_WR16 k d (f rom))"
  unfolding ROM_WR16_def by (intro const_patch_upd) simp_all

lemma const_patch_WR32:
  "const_patch f \<Longrightarrow> 4 \<le> k \<Longrightarrow> const_patch (\<lambda>rom. ROM_WR32 k d (f rom))"
  unfolding ROM_WR32_def by (intro const_patch_upd) simp_all

lemma const_patch_memcpy:
  "const_patch f \<Longrightarrow> 4 \<le> k \<Longrightarrow> const_patch (\<lambda>rom. memcpy k bs (f rom))"
proof (induction bs arbitrary: k f)
  case Nil then show ?case by simp
next
  case (Cons b bs)
  from Cons.prems have "const_patch (\<lambda>rom. (f rom)(k := b))" by (rule const_patch_upd)
  then have "const_patch (\<lambda>rom. memcpy (k + 1) bs ((f rom)(k := b)))"
    by (rule Cons.IH) (use Cons.prems(2) in simp)
  then show ?case by (simp only: memcpy.simps)
qed

lemma nop_loop_unfold:
  "nop_loop 0x376 rom = ROM_WR16 0x37c M68K_INST_NOP (ROM_WR16 0x37a M68K_INST_NOP
     (ROM_WR16 0x378 M68K_INST_NOP (ROM_WR16 0x376 M68K_INST_NOP rom)))"
  by (simp add: nop_loop.simps)

lemma const_patch_if:
  "const_patch f \<Longrightarrow> const_patch g \<Longrightarrow> const_patch (\<lambda>rom. if c then f rom else g rom)"
  by (cases c) simp_all

lemma const_patch_idem:
  assumes "const_patch f"
  shows "f (f rom) = f rom" and "rd32 (f rom) 0 = rd32 rom 0"
proof -
  from assms obtain S g where S: "\<And>a. a \<in> S \<Longrightarrow> 4 \<le> a"
    and f: "\<And>rom a. f rom a = (if a \<in> S then g a else rom a)"
    unfolding const_patch_def by blast
  show "f (f rom) = f rom" by (rule ext) (simp add: f)
  have "\<And>a. a < 4 \<Longrightarrow> f rom a = rom a" using S f by force
  then show "rd32 (f rom) 0 = rd32 rom 0" by (simp add: rd32_def)
qed

lemma patch_fst: "fst (rom_patch_plusv3 sony pv rom w h m) = 0"
  by (simp add: rom_patch_plusv3_def Let_def split: sum.splits)

lemmas const_patch_intros = const_patch_WR8 const_patch_WR16 const_patch_WR32 const_patch_memcpy const_patch_if const_patch_id

lemma patch_snd: "const_patch (\<lambda>rom. snd (rom_patch_plusv3 sony pv rom w h m))"
proof -
  have w: "\<not> (0x58 :: u32) < 0x46 + 10 + 8" "\<not> (0x41 :: u32) < 0x32 + 10" by simp_all
  show ?thesis
    unfolding rom_patch_plusv3_def Let_def
    apply (cases "128 * 1024 <s m \<and> m <s 512 * 1024"; cases "w \<noteq> 512 \<or> h \<noteq> 342"; cases "128 \<le>s c_sdiv w 8")
    apply (simp_all only: if_True if_False w sum.case snd_conv nop_loop_unfold)
    apply (intro const_patch_intros; simp add: ROM_PLUSv3_SONYDRV_def)+
    done
qed


lemma rom_patch_plusv3_eq:
  "rom_patch_plusv3 sony pv rom w h m = (0, snd (rom_patch_plusv3 sony pv rom w h m))"
  using patch_fst [of sony pv rom w h m] by (cases "rom_patch_plusv3 sony pv rom w h m") simp

lemma memcpy_apply:
  "memcpy k bs m a = (if k \<le> a \<and> a < k + length bs then bs ! (a - k) else m a)"
proof (induction bs arbitrary: k m)
  case Nil then show ?case by auto
next
  case (Cons b bs)
  show ?case by (auto simp: Cons.IH nth_Cons' Suc_diff_le)
qed


text \<open>
  C7. A ROM buffer whose first four bytes, read big-endian, are not \<open>0x4D1F8172\<close>:
  \<open>rom_patch1\<close> returns -1 (nonzero) and the buffer is byte for byte what it was; the
  host's \<open>main\<close> then returns 1 before \<open>umac_init\<close>, so emulation is not started.
\<close>

theorem rom_patch1_refuses_unknown_version:
  assumes "rom_get_version rom \<noteq> ROM_PLUSv3_VERSION"
  shows "rom_patch1 sony pv rom w h m = (- 1, rom) \<and>
         fst (rom_patch1 sony pv rom w h m) \<noteq> 0 \<and>
         snd (rom_patch1 sony pv rom w h m) = rom \<and>
         main_rom sony pv w h k dump rom = Inl 1"
  using assms by (simp add: rom_patch1_def main_rom_def rom_patch_def)

theorem rom_patch1_refuses_unknown_version_witness:
  "rom_get_version zero_mem = 0 \<and>
   rom_patch1 example_sony 0xc00069 zero_mem 640 480 (256 * 1024) = (- 1, zero_mem) \<and>
   main_rom example_sony 0xc00069 640 480 256 Dump_written zero_mem = Inl 1"
proof -
  have v: "rom_get_version zero_mem = 0"
    by (simp add: rom_get_version_def rd32_def zero_mem_def)
  then have "rom_get_version zero_mem \<noteq> ROM_PLUSv3_VERSION"
    by (simp add: ROM_PLUSv3_VERSION_def)
  from rom_patch1_refuses_unknown_version [OF this, of example_sony "0xc00069" 640 480
      "256 * 1024" 256 Dump_written] v
  show ?thesis by simp
qed

lemma example_rom_v3_version: "rom_get_version example_rom_v3 = ROM_PLUSv3_VERSION"
  by (simp add: rom_get_version_def rd32_def example_rom_v3_def ROM_PLUSv3_VERSION_def)

text \<open>
  C8. For a ROM buffer with the Mac Plus v3 version word and any display width, height
  and RAM size, the patch succeeds (returns 0), and patching the patched buffer again
  returns 0 with exactly the same bytes: every store of the patch writes a value that
  depends on the parameters only, and none touches the version word.
\<close>

theorem rom_patch1_idempotent:
  assumes "rom_get_version rom = ROM_PLUSv3_VERSION"
  shows "fst (rom_patch1 sony pv rom w h m) = 0 \<and>
         rom_patch1 sony pv (snd (rom_patch1 sony pv rom w h m)) w h m =
           rom_patch1 sony pv rom w h m"
proof -
  let ?f = "\<lambda>rom. snd (rom_patch_plusv3 sony pv rom w h m)"
  have cp: "const_patch ?f" by (rule patch_snd)
  have p1: "rom_patch1 sony pv rom w h m = (0, ?f rom)"
    using assms rom_patch_plusv3_eq [of sony pv rom w h m] by (simp add: rom_patch1_def)
  have "rom_get_version (?f rom) = ROM_PLUSv3_VERSION"
    using const_patch_idem(2) [OF cp, of rom] assms by (simp add: rom_get_version_def)
  then have p2: "rom_patch1 sony pv (?f rom) w h m = (0, ?f (?f rom))"
    using rom_patch_plusv3_eq [of sony pv "?f rom" w h m] by (simp add: rom_patch1_def)
  show ?thesis using p1 p2 const_patch_idem(1) [OF cp, of rom] by simp
qed

theorem rom_patch1_idempotent_witness:
  "fst (rom_patch1 example_sony 0xc00069 example_rom_v3 640 480 (256 * 1024)) = 0 \<and>
   rom_patch1 example_sony 0xc00069
     (snd (rom_patch1 example_sony 0xc00069 example_rom_v3 640 480 (256 * 1024)))
     640 480 (256 * 1024) =
   rom_patch1 example_sony 0xc00069 example_rom_v3 640 480 (256 * 1024) \<and>
   snd (rom_patch1 example_sony 0xc00069 example_rom_v3 640 480 (256 * 1024)) 0x8c = 0x66 \<and>
   snd (rom_patch1 example_sony 0xc00069 example_rom_v3 640 480 (256 * 1024)) 0x1d93 = 0x50"
proof -
  have "snd (rom_patch1 example_sony 0xc00069 example_rom_v3 640 480 (256 * 1024)) 0x8c = 0x66"
    "snd (rom_patch1 example_sony 0xc00069 example_rom_v3 640 480 (256 * 1024)) 0x1d93 = 0x50"
    using example_rom_v3_version
    by (simp_all add: rom_patch1_def rom_patch_plusv3_def Let_def ROM_WR16_def ROM_WR32_def
        ROM_WR8_def memcpy_apply ROM_PLUSv3_SONYDRV_def example_sony_def c_sdiv_def
        signed_divide_int_def nop_loop_unfold SBCOORD_def)
  with rom_patch1_idempotent [OF example_rom_v3_version, of example_sony "0xc00069" 640 480
      "256 * 1024"]
  show ?thesis by simp
qed

text \<open>
  C9. Patched for 512 by 342 and 128 KiB, every byte outside the checksum-compare word
  (offsets \<open>0xD92\<close>, \<open>0xD93\<close>) and outside the driver region (from \<open>0x17D30\<close>, as long
  as \<open>sony_driver\<close>) is what it was. The driver table is not part of the sources; it
  has to hold at least the four bytes that \<open>ROM_WR32\<close> rewrites at its end (the spec
  has it 64 bytes long).
\<close>

theorem rom_patch_default_frame:
  assumes "4 \<le> length sony" and "a \<noteq> 0xd92" and "a \<noteq> 0xd93"
    and "\<not> (0x17d30 \<le> a \<and> a < 0x17d30 + length sony)"
  shows "snd (rom_patch1 sony pv rom 512 342 (128 * 1024)) a = rom a"
  using assms
  by (auto simp add: rom_patch1_def rom_patch_plusv3_def Let_def ROM_WR16_def ROM_WR32_def
      memcpy_apply ROM_PLUSv3_SONYDRV_def)

theorem rom_patch_default_frame_witness:
  "(4::nat) \<le> length example_sony \<and>
   snd (rom_patch1 example_sony 0xc00069 example_rom_v3 512 342 (128 * 1024)) 0x17d2f =
     example_rom_v3 0x17d2f \<and>
   snd (rom_patch1 example_sony 0xc00069 example_rom_v3 512 342 (128 * 1024)) 0x17d34 =
     example_rom_v3 0x17d34 \<and>
   snd (rom_patch1 example_sony 0xc00069 example_rom_v3 512 342 (128 * 1024)) 0xd92 = 0xb3 \<and>
   snd (rom_patch1 example_sony 0xc00069 example_rom_v3 512 342 (128 * 1024)) 0x17d33 = 0x69"
proof -
  have l: "4 \<le> length example_sony" by (simp add: example_sony_def)
  have p: "snd (rom_patch1 example_sony 0xc00069 example_rom_v3 512 342 (128 * 1024)) 0xd92 = 0xb3"
    "snd (rom_patch1 example_sony 0xc00069 example_rom_v3 512 342 (128 * 1024)) 0x17d33 = 0x69"
    using example_rom_v3_version
    by (simp_all add: rom_patch1_def rom_patch_plusv3_def Let_def ROM_WR16_def ROM_WR32_def
        memcpy_apply ROM_PLUSv3_SONYDRV_def example_sony_def)
  from rom_patch_default_frame [OF l, of "0x17d2f" "0xc00069" example_rom_v3]
    rom_patch_default_frame [OF l, of "0x17d34" "0xc00069" example_rom_v3] l p
  show ?thesis by (simp add: example_sony_def)
qed



section \<open>Fatal errors: the done flag and the return of \<open>umac_loop\<close>\<close>

lemma keeps_fault_refl [simp]: "keeps_fault s s"
  by (simp add: keeps_fault_def)

lemma keeps_fault_trans: "keeps_fault s s1 \<Longrightarrow> keeps_fault s1 s2 \<Longrightarrow> keeps_fault s s2"
  by (simp add: keeps_fault_def)

lemma keeps_fault_log_call [simp]: "keeps_fault s (log_call c s)"
  by (simp add: keeps_fault_def log_call_def)

lemma keeps_fault_do_callback: "keeps_fault s (do_callback hw cb s)"
  by (cases cb)
    (simp_all add: keeps_fault_def via_ra_changed_def via_rb_changed_def via_sr_tx_def
      via_irq_set_def scc_irq_set_def umac_disc_ejected_def umac_reset_def log_call_def
      update_overlay_layout_def Let_def)

lemma keeps_fault_do_callbacks: "keeps_fault s (do_callbacks hw cbs s)"
  unfolding do_callbacks_def
proof (induction cbs arbitrary: s)
  case Nil then show ?case by simp
next
  case (Cons cb cbs)
  have "keeps_fault s (do_callback hw cb s)" by (rule keeps_fault_do_callback)
  moreover have "keeps_fault (do_callback hw cb s) (fold (do_callback hw) cbs (do_callback hw cb s))"
    by (rule Cons.IH)
  ultimately show ?case by (simp add: keeps_fault_def)
qed

lemma keeps_fault_via_write: "keeps_fault s (via_write hw a v s)"
  using keeps_fault_do_callbacks [of "log_call (Via_write a v) s" hw]
  by (simp add: via_write_def Let_def keeps_fault_def log_call_def)

lemma keeps_fault_via_tick: "keeps_fault s (via_tick hw c s)"
  using keeps_fault_do_callbacks [of "log_call (Via_tick c) s" hw]
  by (simp add: via_tick_def Let_def keeps_fault_def log_call_def)

lemma keeps_fault_via_limit_cycles: "keeps_fault s (snd (via_limit_cycles hw c s))"
  by (simp add: via_limit_cycles_def Let_def)

lemma keeps_fault_via_read: "keeps_fault s (snd (via_read hw a s))"
  using keeps_fault_do_callbacks [of "log_call (Via_read a) s" hw]
  by (simp add: via_read_def Let_def keeps_fault_def log_call_def split: prod.splits)

lemma keeps_fault_scc_read: "keeps_fault s (snd (scc_read hw a s))"
  using keeps_fault_do_callbacks [of "log_call (Scc_read a) s" hw]
  by (simp add: scc_read_def Let_def keeps_fault_def log_call_def split: prod.splits)

lemma keeps_fault_scc_write: "keeps_fault s (scc_write hw a v s)"
  using keeps_fault_do_callbacks [of "log_call (Scc_write a v) s" hw]
  by (simp add: scc_write_def Let_def keeps_fault_def log_call_def)

lemma keeps_fault_disc_pv_hook: "keeps_fault s (snd (disc_pv_hook hw v s))"
proof -
  obtain r m cbs where x: "x_disc_pv_hook hw v (log_call (Disc_pv_hook v) s) = (r, m, cbs)"
    by (cases "x_disc_pv_hook hw v (log_call (Disc_pv_hook v) s)") auto
  show ?thesis
    using keeps_fault_do_callbacks [of "(log_call (Disc_pv_hook v) s)\<lparr>ram := m\<rparr>" hw cbs] x
    by (simp add: disc_pv_hook_def Let_def keeps_fault_def log_call_def)
qed

lemma fault_step_exit_error: "fault_step s (exit_error s)"
  by (simp add: fault_step_def exit_error_def)

lemma fault_step_after:
  "keeps_fault s s1 \<Longrightarrow> fault_step s1 out \<Longrightarrow> fault_step s out"
  by (auto simp: fault_step_def keeps_fault_def split: outcome.splits)

lemma fault_step_cpu_write_byte: "fault_step s (cpu_write_byte hw a v s)"
proof -
  have pv: "fault_step s (case disc_pv_hook hw v s of (r, s1) \<Rightarrow> if r \<noteq> 0 then exit_error s1 else Returns () s1)"
    using keeps_fault_disc_pv_hook [of s hw v] fault_step_exit_error [of "snd (disc_pv_hook hw v s)"]
    by (cases "disc_pv_hook hw v s") (auto simp: fault_step_def keeps_fault_def split: outcome.splits)
  show ?thesis
    unfolding cpu_write_byte_def Let_def
    using pv keeps_fault_via_write [of s hw a v] keeps_fault_scc_write [of s hw a v]
    by (simp add: fault_step_def iwm_write_def Let_def RAM_WR8_def keeps_fault_def log_call_def)
qed

lemma fault_step_read_fail:
  "fault_step s (case exit_error s of Returns _ s1 \<Rightarrow> Returns (0::u32) s1 | Longjmp s1 \<Rightarrow> Longjmp s1)"
  by (simp add: fault_step_def exit_error_def)

lemma fault_step_drop_value: "fault_step s (drop_value x) = fault_step s x"
  by (simp add: fault_step_def drop_value_def split: outcome.splits)

lemma fault_step_cpu_read_byte: "fault_step s (cpu_read_byte hw a s)"
  unfolding cpu_read_byte_def
  using keeps_fault_via_read [of s hw a] keeps_fault_scc_read [of s hw a]
  by (auto simp: fault_step_def split: prod.splits)

lemma fault_step_cpu_read_word: "fault_step s (cpu_read_word hw a s)"
  unfolding cpu_read_word_def using fault_step_read_fail [of s]
  by (auto simp: fault_step_def)

lemma fault_step_cpu_read_long: "fault_step s (cpu_read_long hw a s)"
  unfolding cpu_read_long_def using fault_step_read_fail [of s]
  by (auto simp: fault_step_def)

lemma fault_step_cpu_read_word_dasm: "fault_step s (cpu_read_word_dasm hw a s)"
  unfolding cpu_read_word_dasm_def using fault_step_read_fail [of s]
  by (auto simp: fault_step_def)

lemma fault_step_cpu_read_long_dasm: "fault_step s (cpu_read_long_dasm hw a s)"
  unfolding cpu_read_long_dasm_def using fault_step_read_fail [of s]
  by (auto simp: fault_step_def)

lemma fault_step_bus_access: "fault_step s (bus_access hw b s)"
proof (cases b)
  case (Write_word a v)
  then show ?thesis
    by (simp add: cpu_write_word_def fault_step_def RAM_WR16_def keeps_fault_def)
next
  case (Write_long a v)
  then show ?thesis
    by (simp add: cpu_write_long_def fault_step_def RAM_WR32_def keeps_fault_def)
qed (simp_all add: fault_step_drop_value fault_step_cpu_read_byte fault_step_cpu_read_word
    fault_step_cpu_read_long fault_step_cpu_read_word_dasm fault_step_cpu_read_long_dasm
    fault_step_cpu_write_byte)

lemma fault_step_m68k_bus: "fault_step s (m68k_bus hw bs s)"
proof (induction bs arbitrary: s)
  case Nil then show ?case by (simp add: fault_step_def)
next
  case (Cons b bs)
  show ?case
  proof (cases "bus_access hw b s")
    case (Returns u s1)
    with fault_step_bus_access [of s hw b] have "keeps_fault s s1" by (simp add: fault_step_def)
    from fault_step_after [OF this Cons.IH [of s1]] Returns show ?thesis by simp
  next
    case (Longjmp s1)
    with fault_step_bus_access [of s hw b] show ?thesis by (simp add: fault_step_def)
  qed
qed

lemma fault_step_m68k_execute: "fault_step s (m68k_execute hw c s)"
proof -
  let ?s0 = "log_call (M68k_execute c) s"
  obtain ops used where x: "x_m68k_execute hw c ?s0 = (ops, used)"
    by (cases "x_m68k_execute hw c ?s0") auto
  have "fault_step ?s0 (m68k_bus hw ops ?s0)" by (rule fault_step_m68k_bus)
  then have "fault_step ?s0 (m68k_execute hw c s)"
    using x by (simp add: m68k_execute_def Let_def fault_step_def split: outcome.splits)
  with keeps_fault_log_call [of s "M68k_execute c"] show ?thesis by (rule fault_step_after)
qed

lemma kbd_check_work_keeps: "keeps_fault s (kbd_check_work s)"
  by (simp add: kbd_check_work_def kbd_rx_def via_sr_rx_def log_call_def keeps_fault_def)

lemma umac_loop_body_cases:
  "(case umac_loop_body hw s of
      Returns r s' \<Rightarrow> r = sim_done s' \<and> keeps_fault s s'
    | Longjmp s' \<Rightarrow> guard_val s = 0 \<and> sim_done s' = 1 \<and> guard_val s' = 1)"
proof -
  obtain c s1 where l: "via_limit_cycles hw (UMAC_EXECLOOP_QUANTUM * 8) s = (c, s1)"
    by (cases "via_limit_cycles hw (UMAC_EXECLOOP_QUANTUM * 8) s") auto
  with keeps_fault_via_limit_cycles [of s hw "UMAC_EXECLOOP_QUANTUM * 8"]
  have k1: "keeps_fault s s1" by simp
  have f: "fault_step s1 (m68k_execute hw c s1)" by (rule fault_step_m68k_execute)
  show ?thesis
  proof (cases "m68k_execute hw c s1")
    case (Longjmp s2)
    with f k1 l show ?thesis
      by (simp add: umac_loop_body_def Let_def fault_step_def keeps_fault_def)
  next
    case (Returns used s2)
    with f have k2: "keeps_fault s1 s2" by (simp add: fault_step_def)
    let ?s3 = "s2\<lparr>global_cycles := global_cycles s2 + scast used\<rparr>"
    let ?s4 = "?s3\<lparr>global_time_us := global_cycles ?s3 div 8\<rparr>"
    have k5: "keeps_fault ?s4 (via_tick hw used ?s4)" by (rule keeps_fault_via_tick)
    have k6: "keeps_fault (via_tick hw used ?s4) (kbd_check_work (via_tick hw used ?s4))"
      by (rule kbd_check_work_keeps)
    from k1 k2 k5 k6 Returns l show ?thesis
      by (simp add: umac_loop_body_def Let_def keeps_fault_def)
  qed
qed

lemma umac_loop_returns:
  "\<exists>s'. umac_loop hw s = Some (sim_done s', s') \<and>
        (guard_val s \<noteq> 0 \<longrightarrow> keeps_fault s s') \<and>
        (\<forall>s1. umac_loop_body hw s = Longjmp s1 \<longrightarrow> sim_done s' = 1 \<and> guard_val s' = 1)"
proof (cases "umac_loop_body hw s")
  case (Returns r s')
  with umac_loop_body_cases [where hw = hw and s = s]
  have r: "r = sim_done s'" and k: "keeps_fault s s'" by simp_all
  from Returns r have "umac_loop hw s = Some (sim_done s', s')"
    by (subst umac_loop.simps) simp
  with Returns k show ?thesis by auto
next
  case (Longjmp s1)
  with umac_loop_body_cases [where hw = hw and s = s] have g: "guard_val s = 0" "sim_done s1 = 1" "guard_val s1 = 1"
    by simp_all
  from Longjmp have u: "umac_loop hw s = umac_loop hw s1" by (subst umac_loop.simps) simp
  show ?thesis
  proof (cases "umac_loop_body hw s1")
    case (Returns r s')
    with umac_loop_body_cases [where hw = hw and s = s1]
    have r: "r = sim_done s'" and k: "keeps_fault s1 s'" by simp_all
    from Returns r have "umac_loop hw s1 = Some (sim_done s', s')"
      by (subst umac_loop.simps) simp
    with g u k Longjmp show ?thesis by (auto simp: keeps_fault_def)
  next
    case (Longjmp s2)
    with umac_loop_body_cases [where hw = hw and s = s1] g show ?thesis by simp
  qed
qed


text \<open>
  \<open>umac_loop\<close> always returns, and returns \<open>sim_done\<close>: a jump out of the body can
  happen once only, since it sets the guard that turns every later \<open>exit_error\<close> into a
  plain return.
\<close>

lemma umac_loop_total: "\<exists>s'. umac_loop hw s = Some (sim_done s', s')"
  using umac_loop_returns [of hw s] by blast

lemma do_callbacks_log: "\<exists>l. ext_calls (do_callbacks hw cbs s) = ext_calls s @ l"
  unfolding do_callbacks_def
proof (induction cbs arbitrary: s)
  case Nil then show ?case by simp
next
  case (Cons cb cbs)
  have "\<exists>l. ext_calls (do_callback hw cb s) = ext_calls s @ l"
    by (cases cb)
      (simp_all add: via_ra_changed_def via_rb_changed_def via_sr_tx_def via_irq_set_def
        scc_irq_set_def umac_disc_ejected_def umac_reset_def log_call_def
        update_overlay_layout_def Let_def)
  then obtain l1 where l1: "ext_calls (do_callback hw cb s) = ext_calls s @ l1" by blast
  from Cons.IH [of "do_callback hw cb s"] obtain l2
    where "ext_calls (fold (do_callback hw) cbs (do_callback hw cb s)) =
             ext_calls (do_callback hw cb s) @ l2" by blast
  with l1 show ?case by simp
qed

lemma disc_pv_hook_logged:
  "take (Suc (length (ext_calls s))) (ext_calls (snd (disc_pv_hook hw v s))) =
     ext_calls s @ [Disc_pv_hook v]"
proof -
  obtain r m cbs where x: "x_disc_pv_hook hw v (log_call (Disc_pv_hook v) s) = (r, m, cbs)"
    by (cases "x_disc_pv_hook hw v (log_call (Disc_pv_hook v) s)") auto
  from do_callbacks_log [of hw cbs "(log_call (Disc_pv_hook v) s)\<lparr>ram := m\<rparr>"]
  obtain l where "ext_calls (do_callbacks hw cbs ((log_call (Disc_pv_hook v) s)\<lparr>ram := m\<rparr>)) =
      (ext_calls s @ [Disc_pv_hook v]) @ l"
    by (auto simp: log_call_def)
  with x show ?thesis by (simp add: disc_pv_hook_def Let_def)
qed

text \<open>
  C4, as the code has it. When the address decode reaches the test for \<open>PV_SONY_ADDR\<close>
  (the address is in none of the RAM, VIA, IWM, SCC-write and dummy regions, whose
  macros are not in the sources), a byte written there calls \<open>disc_pv_hook\<close> with that
  byte: the call is the next entry of the log. If the hook returns nonzero and no fatal
  error was raised before (the guard of \<open>exit_error\<close> is clear), the write leaves
  through \<open>longjmp\<close> with \<open>sim_done = 1\<close>, and a \<open>umac_loop\<close> whose body is left that way
  returns 1. If the guard is already set, \<open>exit_error\<close> returns at once: the write
  returns normally and \<open>sim_done\<close> stays as it was.
\<close>

theorem pv_sony_write_calls_hook:
  assumes "\<not> IS_RAM hw (overlay s) (PV_SONY_ADDR hw)"
    and "\<not> IS_VIA hw (PV_SONY_ADDR hw)"
    and "\<not> IS_IWM hw (PV_SONY_ADDR hw)"
    and "\<not> IS_SCC_WR hw (PV_SONY_ADDR hw)"
    and "\<not> IS_DUMMY hw (PV_SONY_ADDR hw)"
  shows "cpu_write_byte hw (PV_SONY_ADDR hw) v s =
           (if fst (disc_pv_hook hw v s) \<noteq> 0 then exit_error (snd (disc_pv_hook hw v s))
            else Returns () (snd (disc_pv_hook hw v s))) \<and>
         take (Suc (length (ext_calls s))) (ext_calls (snd (disc_pv_hook hw v s))) =
           ext_calls s @ [Disc_pv_hook v] \<and>
         (fst (disc_pv_hook hw v s) \<noteq> 0 \<and> guard_val s = 0 \<longrightarrow>
            (\<exists>s2. cpu_write_byte hw (PV_SONY_ADDR hw) v s = Longjmp s2 \<and> sim_done s2 = 1 \<and>
                  (\<forall>s0. umac_loop_body hw s0 = Longjmp s2 \<longrightarrow>
                     (\<exists>s3. umac_loop hw s0 = Some (1, s3) \<and> sim_done s3 = 1)))) \<and>
         (fst (disc_pv_hook hw v s) \<noteq> 0 \<and> guard_val s \<noteq> 0 \<longrightarrow>
            cpu_write_byte hw (PV_SONY_ADDR hw) v s = Returns () (snd (disc_pv_hook hw v s)) \<and>
            sim_done (snd (disc_pv_hook hw v s)) = sim_done s)"
proof -
  let ?h = "disc_pv_hook hw v s"
  have w: "cpu_write_byte hw (PV_SONY_ADDR hw) v s =
      (if fst ?h \<noteq> 0 then exit_error (snd ?h) else Returns () (snd ?h))"
    using assms by (cases ?h) (simp add: cpu_write_byte_def)
  have k: "sim_done (snd ?h) = sim_done s" "guard_val (snd ?h) = guard_val s"
    using keeps_fault_disc_pv_hook [of s hw v] by (simp_all add: keeps_fault_def)
  have loop: "\<exists>s3. umac_loop hw s0 = Some (1, s3) \<and> sim_done s3 = 1"
    if "umac_loop_body hw s0 = Longjmp s2" for s0 s2
    using umac_loop_returns [of hw s0] that by force
  have a: "fst ?h \<noteq> 0 \<and> guard_val s = 0 \<longrightarrow>
      (\<exists>s2. cpu_write_byte hw (PV_SONY_ADDR hw) v s = Longjmp s2 \<and> sim_done s2 = 1 \<and>
            (\<forall>s0. umac_loop_body hw s0 = Longjmp s2 \<longrightarrow>
               (\<exists>s3. umac_loop hw s0 = Some (1, s3) \<and> sim_done s3 = 1)))"
    using w k loop by (auto simp: exit_error_def)
  have b: "fst ?h \<noteq> 0 \<and> guard_val s \<noteq> 0 \<longrightarrow>
      cpu_write_byte hw (PV_SONY_ADDR hw) v s = Returns () (snd ?h) \<and>
      sim_done (snd ?h) = sim_done s"
    using w k by (simp add: exit_error_def)
  from w disc_pv_hook_logged [of s hw v] a b show ?thesis by blast
qed

lemma example_hw_first_write:
  "cpu_write_byte example_hw 0xc00069 1 (umac_initial zero_mem) = Longjmp example_faulted"
  by (simp add: cpu_write_byte_def example_hw_def disc_pv_hook_def do_callbacks_def Let_def
      exit_error_def log_call_def umac_initial_def example_faulted_def)

theorem pv_sony_write_calls_hook_witness:
  "cpu_write_byte example_hw (PV_SONY_ADDR example_hw) 1 (umac_initial zero_mem) =
     Longjmp example_faulted \<and>
   sim_done example_faulted = 1 \<and>
   ext_calls example_faulted = [Disc_pv_hook 1] \<and>
   (\<exists>s3. umac_loop example_hw (umac_initial zero_mem) = Some (1, s3))"
proof -
  let ?s = "umac_initial zero_mem"
  have pv: "PV_SONY_ADDR example_hw = 0xc00069" by (simp add: example_hw_def)
  have d: "\<not> IS_RAM example_hw (overlay ?s) (PV_SONY_ADDR example_hw)"
    "\<not> IS_VIA example_hw (PV_SONY_ADDR example_hw)"
    "\<not> IS_IWM example_hw (PV_SONY_ADDR example_hw)"
    "\<not> IS_SCC_WR example_hw (PV_SONY_ADDR example_hw)"
    "\<not> IS_DUMMY example_hw (PV_SONY_ADDR example_hw)"
    by (simp_all add: example_hw_def)
  have h: "fst (disc_pv_hook example_hw 1 ?s) \<noteq> 0" "guard_val ?s = 0"
    by (simp_all add: disc_pv_hook_def example_hw_def Let_def umac_initial_def)
  have body: "umac_loop_body example_hw ?s =
      Longjmp ((log_call (Disc_pv_hook 1) (log_call (M68k_execute 40000)
        (log_call (Via_limit_cycles 40000) ?s)))\<lparr>guard_val := 1, sim_done := 1\<rparr>)"
    by (simp add: umac_loop_body_def via_limit_cycles_def m68k_execute_def cpu_write_byte_def
        example_hw_def disc_pv_hook_def do_callbacks_def Let_def exit_error_def log_call_def
        umac_initial_def UMAC_EXECLOOP_QUANTUM_def)
  from umac_loop_returns [of example_hw ?s] body
  have l: "\<exists>s3. umac_loop example_hw ?s = Some (1, s3)" by force
  from pv_sony_write_calls_hook [OF d, of 1] h example_hw_first_write pv l
  show ?thesis
    by (simp add: example_faulted_def log_call_def umac_initial_def)
qed

text \<open>
  The claim as written fails where a fatal error was raised before. The first failing
  write from the initial state jumps out with \<open>example_faulted\<close>; there the hook fails
  again on the next write to \<open>PV_SONY_ADDR\<close>, and the write returns normally: control
  does not unwind a second time.
\<close>

theorem pv_sony_write_counterexample:
  "cpu_write_byte example_hw (PV_SONY_ADDR example_hw) 1 (umac_initial zero_mem) =
     Longjmp example_faulted \<and>
   fst (disc_pv_hook example_hw 1 example_faulted) = 1 \<and>
   cpu_write_byte example_hw (PV_SONY_ADDR example_hw) 1 example_faulted =
     Returns () (log_call (Disc_pv_hook 1) example_faulted)"
  by (simp add: cpu_write_byte_def example_hw_def disc_pv_hook_def do_callbacks_def Let_def
      exit_error_def log_call_def umac_initial_def example_faulted_def)

text \<open>
  From the write to the loop: when the accesses of a pass run up to an access that
  jumps, the interpreter call and the pass are left by that jump, and \<open>umac_loop\<close>
  returns 1.
\<close>

lemma m68k_bus_append:
  "m68k_bus hw (pre @ post) s =
     (case m68k_bus hw pre s of
        Returns _ s1 \<Rightarrow> m68k_bus hw post s1
      | Longjmp s1 \<Rightarrow> Longjmp s1)"
proof (induction pre arbitrary: s)
  case Nil then show ?case by simp
next
  case (Cons b pre)
  show ?case by (cases "bus_access hw b s") (simp_all add: Cons.IH)
qed

lemma umac_loop_body_jump:
  assumes "via_limit_cycles hw (UMAC_EXECLOOP_QUANTUM * 8) s = (c, s1)"
    and "x_m68k_execute hw c (log_call (M68k_execute c) s1) = (pre @ b # post, used)"
    and "m68k_bus hw pre (log_call (M68k_execute c) s1) = Returns () s2"
    and "bus_access hw b s2 = Longjmp s3"
  shows "umac_loop_body hw s = Longjmp s3 \<and> (\<exists>s4. umac_loop hw s = Some (1, s4))"
proof -
  have "m68k_bus hw (pre @ b # post) (log_call (M68k_execute c) s1) = Longjmp s3"
    using assms(3,4) by (simp add: m68k_bus_append)
  with assms(1,2) have j: "umac_loop_body hw s = Longjmp s3"
    by (simp add: umac_loop_body_def m68k_execute_def Let_def)
  with umac_loop_returns [of hw s] show ?thesis by force
qed

lemma keeps_fault_api:
  "keeps_fault s (umac_reset s)" "keeps_fault s (umac_mouse dx dy b s)"
  "keeps_fault s (umac_kbd_event sc down s)"
  by (simp_all add: keeps_fault_def umac_reset_def log_call_def umac_mouse_def Let_def
      RAM_WR16_def RAM_WR8_def umac_kbd_event_def)

lemma api_run_faulted:
  assumes "sim_done s = 1" and "guard_val s = 1"
  shows "\<exists>rs s'. api_run hw cs s = Some (rs, s') \<and> sim_done s' = 1 \<and> guard_val s' = 1 \<and>
           set rs \<subseteq> {1} \<and> length rs = length (filter (\<lambda>c. c = Api_loop) cs)"
  using assms
proof (induction cs arbitrary: s)
  case Nil then show ?case by simp
next
  case (Cons c cs)
  show ?case
  proof (cases c)
    case Api_loop
    from umac_loop_returns [of hw s] Cons.prems obtain s1
      where l: "umac_loop hw s = Some (sim_done s1, s1)" and k: "keeps_fault s s1" by auto
    with Cons.prems have f: "sim_done s1 = 1" "guard_val s1 = 1" by (simp_all add: keeps_fault_def)
    from Cons.IH [OF f] obtain rs s' where "api_run hw cs s1 = Some (rs, s')"
      "sim_done s' = 1" "guard_val s' = 1" "set rs \<subseteq> {1}"
      "length rs = length (filter (\<lambda>c. c = Api_loop) cs)" by blast
    with l f Api_loop show ?thesis by simp
  next
    case Api_reset
    with Cons.IH [of "umac_reset s"] keeps_fault_api(1) [of s] Cons.prems
    show ?thesis by (simp add: keeps_fault_def)
  next
    case (Api_mouse dx dy b)
    with Cons.IH [of "umac_mouse dx dy b s"] keeps_fault_api(2) [of s dx dy b] Cons.prems
    show ?thesis by (simp add: keeps_fault_def)
  next
    case (Api_kbd_event sc down)
    with Cons.IH [of "umac_kbd_event sc down s"] keeps_fault_api(3) [of s sc down] Cons.prems
    show ?thesis by (simp add: keeps_fault_def)
  qed
qed

text \<open>
  C10. Once \<open>exit_error\<close> has raised a fatal error (it jumped, leaving state \<open>s\<close>), the
  done flag is 1 and stays 1: \<open>umac_reset\<close> keeps it, \<open>umac_loop\<close> returns 1, and after
  any sequence of entry-point calls (\<open>umac_loop\<close>, \<open>umac_reset\<close>, \<open>umac_mouse\<close>,
  \<open>umac_kbd_event\<close>) every \<open>umac_loop\<close> among them has returned 1 and the flag is 1.
\<close>

theorem done_flag_never_cleared:
  assumes "exit_error s0 = Longjmp s"
  shows "sim_done s = 1 \<and>
         sim_done (umac_reset s) = 1 \<and>
         (\<exists>s'. umac_loop hw s = Some (1, s') \<and> sim_done s' = 1) \<and>
         (\<exists>rs s'. api_run hw cs s = Some (rs, s') \<and> sim_done s' = 1 \<and> set rs \<subseteq> {1} \<and>
                  length rs = length (filter (\<lambda>c. c = Api_loop) cs))"
proof -
  from assms have f: "sim_done s = 1" "guard_val s = 1"
    by (auto simp: exit_error_def split: if_splits)
  from umac_loop_returns [of hw s] f
  have l: "\<exists>s'. umac_loop hw s = Some (1, s') \<and> sim_done s' = 1"
    by (auto simp: keeps_fault_def)
  from api_run_faulted [OF f, of hw cs] f l show ?thesis
    by (simp add: umac_reset_def log_call_def) blast
qed

theorem done_flag_never_cleared_witness:
  "exit_error (log_call (Disc_pv_hook 1) (umac_initial zero_mem)) = Longjmp example_faulted \<and>
   sim_done (umac_reset example_faulted) = 1 \<and>
   (\<exists>s'. umac_loop example_hw example_faulted = Some (1, s')) \<and>
   (\<exists>s'. api_run example_hw [Api_loop, Api_reset, Api_loop] example_faulted =
      Some ([1, 1], s'))"
proof -
  have e: "exit_error (log_call (Disc_pv_hook 1) (umac_initial zero_mem)) =
      Longjmp example_faulted"
    by (simp add: exit_error_def log_call_def umac_initial_def example_faulted_def)
  from done_flag_never_cleared [OF e, of example_hw "[Api_loop, Api_reset, Api_loop]"]
  obtain rs s' where r: "api_run example_hw [Api_loop, Api_reset, Api_loop] example_faulted =
      Some (rs, s')" "set rs \<subseteq> {1}" "length rs = 2"
    and rest: "sim_done (umac_reset example_faulted) = 1"
      "\<exists>s'. umac_loop example_hw example_faulted = Some (1, s')"
    by auto
  from r(3) obtain a b where "rs = [a, b]"
    by (cases rs; cases "tl rs") auto
  with r have "api_run example_hw [Api_loop, Api_reset, Api_loop] example_faulted =
      Some ([1, 1], s')" by simp
  with e rest show ?thesis by blast
qed


end
